theory Spec2Isabelle
  imports Main "HOL-Library.Word"
begin

text \<open>
  A shallow embedding of \<open>src/v1.js\<close>, a relay that runs on a serverless runtime: it
  authenticates a client by a 16-byte credential in a binary handshake, parses the
  destination out of the handshake, connects to it (or to a fixed fallback endpoint), and
  then copies bytes in both directions.

  Pure code (\<open>verifyUUID\<close>, \<open>parseAddress\<close>) is a function on typed arrays. Code with
  effects threads a log of the platform calls it makes and may throw; what the platform
  answers is a parameter. A session is a record of the closure variables of \<open>fetch\<close>
  (\<open>closed\<close>, \<open>isFirst\<close>) and the log; its handlers are state transformers, and a run is
  any sequence of handler invocations.
\<close>

section \<open>Data model of \<open>src/v1.js\<close>\<close>

text \<open>
  A JavaScript string is a sequence of UTF-16 code units. String literals of the source
  are ASCII; \<open>str\<close> turns an Isabelle literal into the code units of the same text.
\<close>

type_synonym byte = "8 word"
type_synonym jsstring = "16 word list"

definition chr :: "char \<Rightarrow> 16 word" where
  "chr c = of_nat (of_char c)"

definition str :: "string \<Rightarrow> jsstring" where
  "str s = map chr s"

text \<open>
  A \<open>Uint8Array\<close> is a window of \<open>length\<close> bytes into an \<open>ArrayBuffer\<close>, starting at
  \<open>byteOffset\<close>. The source uses all three (\<open>data.buffer\<close>, \<open>data.byteOffset\<close>,
  \<open>data.length\<close> at line 52). The platform only ever builds windows that lie inside
  their buffer (\<open>wf_array\<close>).
\<close>

record u8array =
  buffer :: "byte list"
  byteOffset :: nat
  length_u8 :: nat

definition wf_array :: "u8array \<Rightarrow> bool" where
  "wf_array a = (byteOffset a + length_u8 a \<le> length (buffer a))"

text \<open>\<open>new Uint8Array(len)\<close> filled with the given bytes: a fresh buffer of its own.\<close>

definition fresh_array :: "byte list \<Rightarrow> u8array" where
  "fresh_array bs = \<lparr>buffer = bs, byteOffset = 0, length_u8 = length bs\<rparr>"

text \<open>The bytes the window shows: the blob.\<close>

definition bytes_of :: "u8array \<Rightarrow> byte list" where
  "bytes_of a = take (length_u8 a) (drop (byteOffset a) (buffer a))"

text \<open>
  \<open>data[i]\<close>: an integer-indexed read of a typed array gives \<open>undefined\<close> (here \<open>None\<close>)
  when \<open>i\<close> is not below \<open>data.length\<close>, and never touches the buffer then.
\<close>

definition at :: "u8array \<Rightarrow> nat \<Rightarrow> byte option" where
  "at a i = (if i < length_u8 a then Some (buffer a ! (byteOffset a + i)) else None)"

text \<open>
  \<open>data.subarray(begin, end)\<close>: both ends are clamped to \<open>data.length\<close>, an end before
  the begin gives the empty window; the result shares the buffer.
\<close>

definition subarray :: "u8array \<Rightarrow> nat \<Rightarrow> nat \<Rightarrow> u8array" where
  "subarray a b e =
     (let b' = min b (length_u8 a); e' = min e (length_u8 a)
      in \<lparr>buffer = buffer a, byteOffset = byteOffset a + b', length_u8 = e' - b'\<rparr>)"

text \<open>
  A JavaScript number as far as the source computes with offsets: a natural number, or
  \<open>NaN\<close> (from \<open>base + 1 + undefined\<close>).
\<close>

datatype jsnum = Num nat | NaN

text \<open>\<open>x <= n\<close> and \<open>n > x\<close> for a number \<open>x\<close>: every comparison with \<open>NaN\<close> is false.\<close>

fun num_le :: "jsnum \<Rightarrow> nat \<Rightarrow> bool" where
  "num_le (Num e) n = (e \<le> n)"
| "num_le NaN n = False"

fun gt_num :: "nat \<Rightarrow> jsnum \<Rightarrow> bool" where
  "gt_num n (Num e) = (n > e)"
| "gt_num n NaN = False"

text \<open>An end argument of \<open>subarray\<close> is converted to an integer first: \<open>NaN\<close> becomes 0.\<close>

fun to_integer :: "jsnum \<Rightarrow> nat" where
  "to_integer (Num e) = e"
| "to_integer NaN = 0"

subsection \<open>Constants (lines 4 to 9)\<close>

definition UUID :: "byte list" where
  "UUID = [0x55,0xd9,0xec,0x38,0x1b,0x8a,0x45,0x4b,0x98,0x1a,0x6a,0xcf,0xe8,0xf5,0x6d,0x8c]"

definition PROXY_HOST :: jsstring where
  "PROXY_HOST = str ''sjc.o00o.ooo''"

definition PROXY_PORT :: nat where
  "PROXY_PORT = 443"

definition ATYPE_IPV4 :: byte where "ATYPE_IPV4 = 1"
definition ATYPE_DOMAIN :: byte where "ATYPE_DOMAIN = 2"
definition ATYPE_IPV6 :: byte where "ATYPE_IPV6 = 3"

subsection \<open>Numbers as text\<close>

text \<open>
  \<open>Number.prototype.toString(radix)\<close> on a non-negative integer: the digits
  \<open>0..9a..z\<close>, most significant first, no padding. A template literal \<open>${n}\<close> is radix 10.
\<close>

definition digit :: "nat \<Rightarrow> 16 word" where
  "digit d = chr (''0123456789abcdefghijklmnopqrstuvwxyz'' ! d)"

function toString :: "nat \<Rightarrow> nat \<Rightarrow> jsstring" where
  "toString radix n =
     (if radix < 2 \<or> n < radix then [digit n]
      else toString radix (n div radix) @ [digit (n mod radix)])"
  by pat_completeness auto
termination
  by (relation "measure snd") (auto simp: not_less)

text \<open>\<open>${data[i]}\<close>: a byte in decimal, or the text \<open>undefined\<close>.\<close>

definition template :: "byte option \<Rightarrow> jsstring" where
  "template v = (case v of None \<Rightarrow> str ''undefined'' | Some b \<Rightarrow> toString 10 (unat b))"

subsection \<open>\<open>verifyUUID\<close> (lines 28 to 33)\<close>

definition verifyUUID :: "u8array \<Rightarrow> bool" where
  "verifyUUID data =
    (at data 1 = Some (UUID ! 0) \<and> at data 2 = Some (UUID ! 1) \<and> at data 3 = Some (UUID ! 2) \<and>
     at data 4 = Some (UUID ! 3) \<and> at data 5 = Some (UUID ! 4) \<and> at data 6 = Some (UUID ! 5) \<and>
     at data 7 = Some (UUID ! 6) \<and> at data 8 = Some (UUID ! 7) \<and> at data 9 = Some (UUID ! 8) \<and>
     at data 10 = Some (UUID ! 9) \<and> at data 11 = Some (UUID ! 10) \<and> at data 12 = Some (UUID ! 11) \<and>
     at data 13 = Some (UUID ! 12) \<and> at data 14 = Some (UUID ! 13) \<and> at data 15 = Some (UUID ! 14) \<and>
     at data 16 = Some (UUID ! 15))"

subsection \<open>\<open>parseAddress\<close> (lines 36 to 57)\<close>

record address =
  host :: jsstring
  end_offset :: jsnum
  ok :: bool

datatype exn = RangeError

text \<open>
  \<open>new DataView(buffer, byteOffset, 16)\<close> throws a \<open>RangeError\<close> when the 16 bytes do not
  lie inside the buffer; \<open>getUint16(k)\<close> reads two bytes of the buffer, big-endian, with
  no regard to the window of the typed array the buffer came from.
\<close>

definition DataView :: "byte list \<Rightarrow> nat \<Rightarrow> nat \<Rightarrow> exn + byte list" where
  "DataView buf off n = (if off + n \<le> length buf then Inr (take n (drop off buf)) else Inl RangeError)"

definition getUint16 :: "byte list \<Rightarrow> nat \<Rightarrow> nat" where
  "getUint16 v k = 256 * unat (v ! k) + unat (v ! (k + 1))"

definition colon :: jsstring where
  "colon = str '':''"

definition dot :: jsstring where
  "dot = str ''.''"

text \<open>
  \<open>decoder.decode\<close> is the platform's \<open>TextDecoder\<close>; it is the parameter \<open>decode\<close>.
  The source's field \<open>end\<close> is \<open>end_offset\<close> here.
\<close>

definition parseAddress :: "(byte list \<Rightarrow> jsstring) \<Rightarrow> u8array \<Rightarrow> nat \<Rightarrow> exn + address" where
  "parseAddress decode data offset =
    (let atype = at data (offset + 3);
         base = offset + 4
     in if atype = Some ATYPE_DOMAIN then
          (let len = at data base;
               end = (case len of None \<Rightarrow> NaN | Some l \<Rightarrow> Num (base + 1 + unat l))
           in Inr \<lparr>host = decode (bytes_of (subarray data (base + 1) (to_integer end))),
                   end_offset = end, ok = num_le end (length_u8 data)\<rparr>)
        else if atype = Some ATYPE_IPV4 then
          (let end = base + 4
           in Inr \<lparr>host = template (at data base) @ dot @ template (at data (base + 1)) @ dot @
                          template (at data (base + 2)) @ dot @ template (at data (base + 3)),
                   end_offset = Num end, ok = (end \<le> length_u8 data)\<rparr>)
        else if atype = Some ATYPE_IPV6 then
          (let end = base + 16
           in if end > length_u8 data then Inr \<lparr>host = str '''', end_offset = Num 0, ok = False\<rparr>
              else (case DataView (buffer data) (byteOffset data + base) 16 of
                      Inl e \<Rightarrow> Inl e
                    | Inr v \<Rightarrow>
                        Inr \<lparr>host = toString 16 (getUint16 v 0) @ colon @ toString 16 (getUint16 v 2) @ colon @
                                    toString 16 (getUint16 v 4) @ colon @ toString 16 (getUint16 v 6) @ colon @
                                    toString 16 (getUint16 v 8) @ colon @ toString 16 (getUint16 v 10) @ colon @
                                    toString 16 (getUint16 v 12) @ colon @ toString 16 (getUint16 v 14),
                              end_offset = Num end, ok = True\<rparr>))
        else Inr \<lparr>host = str '''', end_offset = Num 0, ok = False\<rparr>)"

section \<open>Platform calls and exceptions\<close>

text \<open>
  The code talks to the runtime through a handful of calls. Each call the code makes is
  appended to a log, together with whether it threw (for \<open>Opened\<close>: whether the awaited
  promise \<open>sock.opened\<close> rejected). Whether a call throws is the runtime's choice: it is
  the parameter \<open>throws\<close>, a function of the calls made so far, so that every behaviour
  of the runtime in a run is some \<open>throws\<close>.
\<close>

datatype call =
    Connect jsstring nat    \<comment> \<open>\<open>connect({ hostname, port })\<close>\<close>
  | Opened jsstring nat     \<comment> \<open>\<open>await sock.opened\<close>\<close>
  | ServerClose             \<comment> \<open>\<open>server.close()\<close>\<close>
  | TcpClose                \<comment> \<open>\<open>tcp.close()\<close>\<close>
  | ServerSend "byte list"  \<comment> \<open>\<open>server.send(frame)\<close>\<close>
  | Enqueue "byte list"     \<comment> \<open>\<open>controller.enqueue(chunk)\<close>\<close>
  | ControllerClose         \<comment> \<open>\<open>controller.close()\<close>\<close>

type_synonym log = "(call \<times> bool) list"
type_synonym platform = "log \<Rightarrow> call \<Rightarrow> bool"

datatype thrown = Thrown

text \<open>A computation on a state \<open>'s\<close> that returns a value or throws.\<close>

type_synonym ('a, 's) js = "'s \<Rightarrow> (thrown + 'a) \<times> 's"

definition return :: "'a \<Rightarrow> ('a, 's) js" where
  "return x s = (Inr x, s)"

definition bind :: "('a, 's) js \<Rightarrow> ('a \<Rightarrow> ('b, 's) js) \<Rightarrow> ('b, 's) js" where
  "bind m k s = (case m s of (Inl e, s') \<Rightarrow> (Inl e, s') | (Inr x, s') \<Rightarrow> k x s')"

definition seq :: "('a, 's) js \<Rightarrow> ('b, 's) js \<Rightarrow> ('b, 's) js" where
  "seq m k = bind m (\<lambda>_. k)"

text \<open>\<open>try { m } catch { h }\<close>\<close>

definition try_catch :: "('a, 's) js \<Rightarrow> ('a, 's) js \<Rightarrow> ('a, 's) js" where
  "try_catch m h s = (case m s of (Inl e, s') \<Rightarrow> h s' | (Inr x, s') \<Rightarrow> (Inr x, s'))"

definition perform :: "platform \<Rightarrow> call \<Rightarrow> (unit, log) js" where
  "perform throws c l = (if throws l c then Inl Thrown else Inr (), l @ [(c, throws l c)])"

subsection \<open>\<open>connectTCP\<close> (lines 60 to 70)\<close>

text \<open>
  A socket is known by the endpoint it was opened to. The source's parameter \<open>host\<close> is
  \<open>hostname\<close> here (\<open>host\<close> is the field of an address).
\<close>

type_synonym socket = "jsstring \<times> nat"

definition connectTCP :: "platform \<Rightarrow> jsstring \<Rightarrow> nat \<Rightarrow> (socket, log) js" where
  "connectTCP throws hostname port =
     try_catch
       (seq (perform throws (Connect hostname port))
         (seq (perform throws (Opened hostname port))
           (return (hostname, port))))
       (seq (perform throws (Connect PROXY_HOST PROXY_PORT))
         (seq (perform throws (Opened PROXY_HOST PROXY_PORT))
           (return (PROXY_HOST, PROXY_PORT))))"

section \<open>The relay session (lines 108 to 166)\<close>

record session =
  closed :: bool
  isFirst :: bool
  calls :: log

definition invoke :: "platform \<Rightarrow> call \<Rightarrow> (unit, session) js" where
  "invoke throws c s = (case perform throws c (calls s) of (r, l) \<Rightarrow> (r, s\<lparr>calls := l\<rparr>))"

subsection \<open>\<open>shutdown\<close> (lines 115 to 121)\<close>

definition shutdown :: "platform \<Rightarrow> (unit, session) js" where
  "shutdown throws s =
     (if closed s then return () s
      else seq (\<lambda>s. return () (s\<lparr>closed := True\<rparr>))
            (seq (try_catch (invoke throws ServerClose) (return ()))
                 (try_catch (invoke throws TcpClose) (return ()))) s)"

subsection \<open>The uplink's handlers (lines 124 to 146)\<close>

text \<open>\<open>event.data\<close> of a message is an \<open>ArrayBuffer\<close> or a string.\<close>

datatype payload = Binary "byte list" | Text jsstring

text \<open>\<open>encoder.encode\<close> is the platform's \<open>TextEncoder\<close>; it is the parameter \<open>encode\<close>.\<close>

definition on_message :: "platform \<Rightarrow> (jsstring \<Rightarrow> byte list) \<Rightarrow> payload \<Rightarrow> (unit, session) js" where
  "on_message throws encode p =
     try_catch
       (case p of
          Binary b \<Rightarrow> invoke throws (Enqueue b)
        | Text t \<Rightarrow> invoke throws (Enqueue (encode t)))
       (shutdown throws)"

definition on_close :: "platform \<Rightarrow> (unit, session) js" where
  "on_close throws = try_catch (invoke throws ControllerClose) (return ())"

text \<open>
  \<open>start(controller)\<close> runs inside \<open>new ReadableStream\<close>, on a controller nobody has
  closed yet, where \<open>enqueue\<close> does not throw.
\<close>

definition uplink_start :: "u8array \<Rightarrow> address \<Rightarrow> session \<Rightarrow> session" where
  "uplink_start data addr s =
     (if gt_num (length_u8 data) (end_offset addr)
      then s\<lparr>calls := calls s @
             [(Enqueue (bytes_of (subarray data (to_integer (end_offset addr)) (length_u8 data))), False)]\<rparr>
      else s)"

subsection \<open>The downlink's \<open>write\<close> (lines 149 to 166)\<close>

definition downlink_write :: "platform \<Rightarrow> byte list \<Rightarrow> (unit, session) js" where
  "downlink_write throws chunk s =
     (if isFirst s
      then seq (\<lambda>s. return () (s\<lparr>isFirst := False\<rparr>))
               (invoke throws (ServerSend ([0, 0] @ chunk))) s
      else invoke throws (ServerSend chunk) s)"

subsection \<open>Runs of a session\<close>

text \<open>
  The runtime is single-threaded: it runs one handler at a time, to its end. A run of a
  session is the sequence of handlers the runtime invokes, in any order it likes. An
  exception that leaves a handler goes to the runtime, which answers with further events
  (a failed \<open>write\<close> makes \<open>pipeTo\<close> reject).
\<close>

datatype event =
    Message payload             \<comment> \<open>\<open>server\<close>'s \<open>message\<close> listener\<close>
  | Close                       \<comment> \<open>\<open>server\<close>'s \<open>close\<close> listener\<close>
  | Error                       \<comment> \<open>\<open>server\<close>'s \<open>error\<close> listener: \<open>shutdown\<close>\<close>
  | UplinkCancel                \<comment> \<open>\<open>cancel: shutdown\<close>\<close>
  | UplinkRejected              \<comment> \<open>\<open>uplink.pipeTo(tcp.writable).catch(shutdown)\<close>\<close>
  | DownlinkWrite "byte list"   \<comment> \<open>\<open>write(chunk)\<close>\<close>
  | DownlinkClose               \<comment> \<open>\<open>close: shutdown\<close>\<close>
  | DownlinkAbort               \<comment> \<open>\<open>abort: shutdown\<close>\<close>
  | DownlinkRejected            \<comment> \<open>\<open>tcp.readable.pipeTo(downlink).catch(shutdown)\<close>\<close>

fun handler :: "platform \<Rightarrow> (jsstring \<Rightarrow> byte list) \<Rightarrow> event \<Rightarrow> (unit, session) js" where
  "handler throws encode (Message p) = on_message throws encode p"
| "handler throws encode Close = on_close throws"
| "handler throws encode Error = shutdown throws"
| "handler throws encode UplinkCancel = shutdown throws"
| "handler throws encode UplinkRejected = shutdown throws"
| "handler throws encode (DownlinkWrite chunk) = downlink_write throws chunk"
| "handler throws encode DownlinkClose = shutdown throws"
| "handler throws encode DownlinkAbort = shutdown throws"
| "handler throws encode DownlinkRejected = shutdown throws"

fun run :: "platform \<Rightarrow> (jsstring \<Rightarrow> byte list) \<Rightarrow> event list \<Rightarrow> session \<Rightarrow> session" where
  "run throws encode [] s = s"
| "run throws encode (ev # evs) s = run throws encode evs (snd (handler throws encode ev s))"

section \<open>\<open>fetch\<close> (lines 73 to 169)\<close>

record response =
  status :: nat
  headers :: "(jsstring \<times> jsstring) list"

definition makeResponse :: "nat \<Rightarrow> (jsstring \<times> jsstring) list option \<Rightarrow> response" where
  "makeResponse st hs = (case hs of Some h \<Rightarrow> \<lparr>status = st, headers = h\<rparr> | None \<Rightarrow> \<lparr>status = st, headers = []\<rparr>)"

text \<open>
  The source rejects with a bare status. Each rejecting \<open>return\<close> is tagged here with the
  error it stands for: line 76 \<open>UpgradeRequired\<close>, line 79 \<open>MissingToken\<close>, line 84
  \<open>MalformedEncoding\<close>, lines 87 and 94 \<open>TooShort\<close>, line 90 \<open>Unauthorized\<close>, line 101
  \<open>InvalidAddress\<close>, line 106 \<open>DestinationUnreachable\<close>. A reply carries the platform
  calls made on the way.
\<close>

datatype failure =
  UpgradeRequired | MissingToken | MalformedEncoding | TooShort | Unauthorized |
  InvalidAddress | DestinationUnreachable

datatype reply =
    Reject failure response log
  | Upgrade response session
  | Uncaught exn

text \<open>
  \<open>decodeBase64\<close> (lines 19 to 25). \<open>atob\<close> is the platform's; \<open>None\<close> is its exception.
  Storing a char code into a \<open>Uint8Array\<close> keeps its low 8 bits.
\<close>

definition decodeBase64 :: "(jsstring \<Rightarrow> jsstring option) \<Rightarrow> jsstring \<Rightarrow> u8array option" where
  "decodeBase64 atob s =
     (case atob (map (\<lambda>c. if c = chr CHR ''_'' then chr CHR ''/'' else c)
                  (map (\<lambda>c. if c = chr CHR ''-'' then chr CHR ''+'' else c) s)) of
        None \<Rightarrow> None
      | Some b \<Rightarrow> Some (fresh_array (map ucast b)))"

text \<open>\<open>x << 8\<close> and \<open>x | y\<close> turn \<open>undefined\<close> into 0.\<close>

definition to_int32 :: "byte option \<Rightarrow> nat" where
  "to_int32 v = (case v of None \<Rightarrow> 0 | Some b \<Rightarrow> unat b)"

text \<open>Lines 86 to 168: what \<open>fetch\<close> does once the token is decoded.\<close>

definition fetch_decoded :: "platform \<Rightarrow> (byte list \<Rightarrow> jsstring) \<Rightarrow> u8array \<Rightarrow> reply" where
  "fetch_decoded throws decode data =
    (if length_u8 data < 18 then Reject TooShort (makeResponse 400 None) []
     else if \<not> verifyUUID data then Reject Unauthorized (makeResponse 403 None) []
     else
       (case at data 17 of
          None \<Rightarrow> Reject InvalidAddress (makeResponse 400 None) []
            \<comment> \<open>not reached (the length is at least 18): \<open>18 + undefined\<close> is \<open>NaN\<close>, line 94
                does not reject, \<open>data[NaN + 3]\<close> is no family and line 101 rejects\<close>
        | Some optLen \<Rightarrow>
           (let addrOffset = 18 + unat optLen
            in if addrOffset + 4 > length_u8 data then Reject TooShort (makeResponse 400 None) []
               else
                 (let port = or (push_bit 8 (to_int32 (at data (addrOffset + 1))))
                                (to_int32 (at data (addrOffset + 2)))
                  in case parseAddress decode data addrOffset of
                       Inl e \<Rightarrow> Uncaught e
                     | Inr addr \<Rightarrow>
                         if \<not> ok addr then Reject InvalidAddress (makeResponse 400 None) []
                         else
                           (case connectTCP throws (host addr) port [] of
                              (Inl e, l) \<Rightarrow> Reject DestinationUnreachable (makeResponse 502 None) l
                            | (Inr tcp, l) \<Rightarrow>
                                Upgrade (makeResponse 101 None)
                                  (uplink_start data addr
                                     \<lparr>closed = False, isFirst = True, calls = l\<rparr>))))))"

record request =
  upgrade :: "jsstring option"     \<comment> \<open>\<open>request.headers.get('Upgrade')\<close>\<close>
  protocol :: "jsstring option"    \<comment> \<open>\<open>request.headers.get('Sec-WebSocket-Protocol')\<close>\<close>

definition fetch ::
  "(jsstring \<Rightarrow> jsstring option) \<Rightarrow> platform \<Rightarrow> (byte list \<Rightarrow> jsstring) \<Rightarrow> request \<Rightarrow> reply" where
  "fetch atob throws decode req =
    (if upgrade req \<noteq> Some (str ''websocket'')
     then Reject UpgradeRequired (makeResponse 426 (Some [(str ''Upgrade'', str ''websocket'')])) []
     else
       (case protocol req of
          None \<Rightarrow> Reject MissingToken (makeResponse 400 None) []
        | Some p \<Rightarrow>
            if p = [] then Reject MissingToken (makeResponse 400 None) []
            else
              (case decodeBase64 atob p of
                 None \<Rightarrow> Reject MalformedEncoding (makeResponse 400 None) []
               | Some data \<Rightarrow> fetch_decoded throws decode data)))"

section \<open>Observations on logs and runs\<close>

text \<open>What a log shows: the endpoints \<open>connect\<close> was called with, in order.\<close>

fun connects :: "log \<Rightarrow> socket list" where
  "connects [] = []"
| "connects ((Connect h p, t) # l) = (h, p) # connects l"
| "connects (_ # l) = connects l"

text \<open>The arguments of \<open>server.send\<close>, in order: what is written to the client.\<close>

fun sent_frames :: "log \<Rightarrow> byte list list" where
  "sent_frames [] = []"
| "sent_frames ((ServerSend b, t) # l) = b # sent_frames l"
| "sent_frames (_ # l) = sent_frames l"

text \<open>
  The chunks handed to \<open>controller.enqueue\<close>, in order, each with whether the call threw.
  The uplink's queue is first in, first out, and \<open>pipeTo\<close> writes it to the destination
  in that order: the accepted chunks, in this order, are the destination-bound stream.
\<close>

fun enqueued :: "log \<Rightarrow> (byte list \<times> bool) list" where
  "enqueued [] = []"
| "enqueued ((Enqueue b, t) # l) = (b, t) # enqueued l"
| "enqueued (_ # l) = enqueued l"

text \<open>The \<open>close\<close> calls of a log, in order.\<close>

fun closes :: "log \<Rightarrow> call list" where
  "closes [] = []"
| "closes ((ServerClose, t) # l) = ServerClose # closes l"
| "closes ((TcpClose, t) # l) = TcpClose # closes l"
| "closes (_ # l) = closes l"

text \<open>The chunks the destination delivered and the messages the client sent, in a run.\<close>

fun chunks :: "event list \<Rightarrow> byte list list" where
  "chunks [] = []"
| "chunks (DownlinkWrite c # evs) = c # chunks evs"
| "chunks (_ # evs) = chunks evs"

fun messages :: "event list \<Rightarrow> payload list" where
  "messages [] = []"
| "messages (Message p # evs) = p # messages evs"
| "messages (_ # evs) = messages evs"

definition payload_bytes :: "(jsstring \<Rightarrow> byte list) \<Rightarrow> payload \<Rightarrow> byte list" where
  "payload_bytes encode p = (case p of Binary b \<Rightarrow> b | Text t \<Rightarrow> encode t)"

text \<open>The downlink's framing as the specification words it: a header on the first chunk only.\<close>

fun framed :: "byte list list \<Rightarrow> byte list list" where
  "framed [] = []"
| "framed (c # cs) = ([0, 0] @ c) # cs"

text \<open>
  The IPv6 text as the specification words it: the bytes in big-endian pairs, each pair in
  hexadecimal, joined with colons.
\<close>

fun be16_groups :: "byte list \<Rightarrow> nat list" where
  "be16_groups (hi # lo # bs) = (256 * unat hi + unat lo) # be16_groups bs"
| "be16_groups _ = []"

fun join :: "jsstring \<Rightarrow> jsstring list \<Rightarrow> jsstring" where
  "join sep [] = []"
| "join sep [x] = x"
| "join sep (x # y # xs) = x @ sep @ join sep (y # xs)"

text \<open>
  The log of one connection attempt: it succeeded, or \<open>connect\<close> threw, or the socket
  did not become ready.
\<close>

definition attempt_ok :: "jsstring \<Rightarrow> nat \<Rightarrow> log" where
  "attempt_ok h p = [(Connect h p, False), (Opened h p, False)]"

definition attempt_failed :: "jsstring \<Rightarrow> nat \<Rightarrow> log set" where
  "attempt_failed h p = {[(Connect h p, True)], [(Connect h p, False), (Opened h p, True)]}"

text \<open>
  The invariant of a session: the \<open>close\<close> calls made so far are none while \<open>closed\<close> is
  false, and one on each channel, the client's first, once it is true.
\<close>

definition closed_once :: "session \<Rightarrow> bool" where
  "closed_once s = (closes (calls s) = (if closed s then [ServerClose, TcpClose] else []))"

section \<open>Example handshakes\<close>

text \<open>
  A stand-in for the platform's \<open>TextDecoder\<close> and \<open>TextEncoder\<close> on one-byte
  characters, and a runtime in which no call ever throws.
\<close>

definition latin1_decode :: "byte list \<Rightarrow> jsstring" where
  "latin1_decode bs = map ucast bs"

definition latin1_encode :: "jsstring \<Rightarrow> byte list" where
  "latin1_encode t = map ucast t"

definition never_throws :: platform where
  "never_throws l c = False"

text \<open>A runtime in which every \<open>connect\<close> throws.\<close>

definition no_network :: platform where
  "no_network l c = (case c of Connect h p \<Rightarrow> True | _ \<Rightarrow> False)"

text \<open>Version 0, the credential, no options, command 1, port 443.\<close>

definition ex_header :: "byte list" where
  "ex_header = [0] @ UUID @ [0, 1, 0x01, 0xBB]"

text \<open>The domain \<open>abc\<close>, followed by two bytes of payload.\<close>

definition ex_domain :: u8array where
  "ex_domain = fresh_array (ex_header @ [2, 3, 0x61, 0x62, 0x63, 9, 9])"

text \<open>A domain of length 0, and nothing after it.\<close>

definition ex_empty_domain :: u8array where
  "ex_empty_domain = fresh_array (ex_header @ [2, 0])"

text \<open>
  The IPv6 address \<open>2001:db8::1\<close>, in a window that starts two bytes into its buffer
  and stops three bytes before the buffer's end.
\<close>

definition ex_ipv6 :: u8array where
  "ex_ipv6 =
     \<lparr>buffer = [0xAA, 0xAA] @ ex_header @
                [3, 0x20, 0x01, 0x0d, 0xb8, 0, 0, 0, 0, 0, 0, 0, 0, 0, 0, 0, 1] @ [0xBB, 0xBB, 0xBB],
      byteOffset = 2, length_u8 = 38\<rparr>"

text \<open>The credential with its last byte off by one.\<close>

definition ex_partial_match :: u8array where
  "ex_partial_match = fresh_array ([0] @ butlast UUID @ [0x8d, 0, 1, 0x01, 0xBB, 1, 93, 184, 216, 34])"

text \<open>An options length of 200 in a blob of 26 bytes.\<close>

definition ex_long_options :: u8array where
  "ex_long_options = fresh_array ([0] @ UUID @ [200, 1, 0x01, 0xBB, 1, 93, 184, 216, 34])"

text \<open>The same buffer, with a window that stops in the middle of the address.\<close>

definition ex_ipv6_cut :: u8array where
  "ex_ipv6_cut = ex_ipv6\<lparr>length_u8 := 30\<rparr>"

text \<open>The session \<open>fetch\<close> opens for \<open>ex_domain\<close> when nothing throws.\<close>

definition ex_session :: session where
  "ex_session =
     \<lparr>closed = False, isFirst = True,
      calls = [(Connect (str ''abc'') 443, False), (Opened (str ''abc'') 443, False),
               (Enqueue [9, 9], False)]\<rparr>"

text \<open>
  A run: the destination sends two chunks, the client two messages, the downlink closes,
  a late chunk and a late message arrive, and an error is reported.
\<close>

definition ex_run :: "event list" where
  "ex_run =
     [DownlinkWrite [1, 2], Message (Binary [7]), DownlinkWrite [3], Message (Text (str ''hi'')),
      DownlinkClose, DownlinkWrite [4], Message (Binary [8]), Error]"

text \<open>The session \<open>fetch\<close> opens for \<open>ex_empty_domain\<close> when nothing throws.\<close>

definition ex_empty_session :: session where
  "ex_empty_session =
     \<lparr>closed = False, isFirst = True,
      calls = [(Connect [] 443, False), (Opened [] 443, False)]\<rparr>"

section \<open>Typed arrays\<close>

lemma length_bytes_of: "wf_array a \<Longrightarrow> length (bytes_of a) = length_u8 a"
  by (simp add: wf_array_def bytes_of_def)

lemma at_bytes_of:
  "wf_array a \<Longrightarrow> at a i = (if i < length_u8 a then Some (bytes_of a ! i) else None)"
  by (simp add: wf_array_def bytes_of_def at_def)

lemma wf_fresh_array: "wf_array (fresh_array bs)"
  by (simp add: wf_array_def fresh_array_def)

lemma bytes_of_fresh_array: "bytes_of (fresh_array bs) = bs"
  by (simp add: bytes_of_def fresh_array_def)

lemma bytes_of_subarray:
  "bytes_of (subarray a b e) =
   take (min e (length_u8 a) - min b (length_u8 a)) (drop (min b (length_u8 a)) (bytes_of a))"
  by (simp add: bytes_of_def subarray_def Let_def take_drop min_def add.commute)

lemma bytes_of_subarray_inside:
  "b \<le> e \<Longrightarrow> e \<le> length_u8 a \<Longrightarrow> bytes_of (subarray a b e) = take (e - b) (drop b (bytes_of a))"
  by (simp add: bytes_of_subarray min_def)

lemma bytes_of_subarray_rest:
  assumes "e \<le> length_u8 a"
  shows "bytes_of (subarray a e (length_u8 a)) = drop e (bytes_of a)"
proof -
  have "length (bytes_of a) \<le> length_u8 a"
    by (simp add: bytes_of_def)
  then show ?thesis
    using assms by (simp add: bytes_of_subarray_inside)
qed

lemma DataView_window:
  "wf_array a \<Longrightarrow> base + n \<le> length_u8 a \<Longrightarrow>
   DataView (buffer a) (byteOffset a + base) n = Inr (take n (drop base (bytes_of a)))"
  by (simp add: DataView_def wf_array_def bytes_of_def take_drop add.commute min_def)

section \<open>The credential check\<close>

lemma all_less_16:
  "(\<forall>i<16::nat. P i) \<longleftrightarrow>
   (P 0 \<and> P 1 \<and> P 2 \<and> P 3 \<and> P 4 \<and> P 5 \<and> P 6 \<and> P 7 \<and> P 8 \<and> P 9 \<and> P 10 \<and> P 11 \<and>
    P 12 \<and> P 13 \<and> P 14 \<and> P 15)"
  by (simp add: numeral_eq_Suc All_less_Suc conj_ac)

lemma all_less_16_Suc:
  "(\<forall>i<16::nat. Q (Suc i) i) \<longleftrightarrow>
   (Q 1 0 \<and> Q 2 1 \<and> Q 3 2 \<and> Q 4 3 \<and> Q 5 4 \<and> Q 6 5 \<and> Q 7 6 \<and> Q 8 7 \<and> Q 9 8 \<and>
    Q 10 9 \<and> Q 11 10 \<and> Q 12 11 \<and> Q 13 12 \<and> Q 14 13 \<and> Q 15 14 \<and> Q 16 15)"
proof -
  have sucs: "Suc 0 = 1" "Suc 1 = 2" "Suc 2 = 3" "Suc 3 = 4" "Suc 4 = 5" "Suc 5 = 6" "Suc 6 = 7"
    "Suc 7 = 8" "Suc 8 = 9" "Suc 9 = 10" "Suc 10 = 11" "Suc 11 = 12" "Suc 12 = 13" "Suc 13 = 14"
    "Suc 14 = 15" "Suc 15 = 16"
    by simp_all
  show ?thesis
    unfolding all_less_16[of "\<lambda>i. Q (Suc i) i"] by (simp only: sucs)
qed

lemma take_drop_eq_iff:
  assumes "us \<noteq> []"
  shows "(take (length us) (drop k bs) = us) \<longleftrightarrow>
         (k + length us \<le> length bs \<and> (\<forall>i<length us. bs ! (k + i) = us ! i))"
proof (cases "k + length us \<le> length bs")
  case True
  then show ?thesis by (auto simp: list_eq_iff_nth_eq)
next
  case False
  with assms have "length (take (length us) (drop k bs)) \<noteq> length us" by (cases us) auto
  then have "take (length us) (drop k bs) \<noteq> us" by metis
  with False show ?thesis by simp
qed

text \<open>\<open>verifyUUID\<close> accepts exactly the blobs whose bytes 1 to 16 are the secret.\<close>

lemma verifyUUID_iff:
  assumes "wf_array data"
  shows "verifyUUID data \<longleftrightarrow> take 16 (drop 1 (bytes_of data)) = UUID"
proof -
  have len: "length UUID = 16" and ne: "UUID \<noteq> []" by (simp_all add: UUID_def)
  have "take 16 (drop 1 (bytes_of data)) = UUID \<longleftrightarrow>
        (17 \<le> length_u8 data \<and> (\<forall>i<16. bytes_of data ! Suc i = UUID ! i))"
    using take_drop_eq_iff[OF ne, of 1 "bytes_of data"] len by (simp add: length_bytes_of[OF assms])
  also have "\<dots> \<longleftrightarrow> verifyUUID data"
  proof (cases "17 \<le> length_u8 data")
    case True
    then show ?thesis
      unfolding all_less_16_Suc[of "\<lambda>j i. bytes_of data ! j = UUID ! i"] verifyUUID_def
        at_bytes_of[OF assms]
      by simp
  next
    case False
    then show ?thesis
      unfolding verifyUUID_def at_bytes_of[OF assms] by simp
  qed
  finally show ?thesis by simp
qed

section \<open>The paths through \<open>fetch\<close>\<close>

lemma status_makeResponse: "status (makeResponse st hs) = st"
  by (cases hs) (simp_all add: makeResponse_def)

lemma fetch_decoded_short:
  "length_u8 data < 18 \<Longrightarrow>
   fetch_decoded throws decode data = Reject TooShort (makeResponse 400 None) []"
  by (simp add: fetch_decoded_def)

lemma fetch_decoded_unauthorized:
  "18 \<le> length_u8 data \<Longrightarrow> \<not> verifyUUID data \<Longrightarrow>
   fetch_decoded throws decode data = Reject Unauthorized (makeResponse 403 None) []"
  by (simp add: fetch_decoded_def)

lemma at_17: "18 \<le> length_u8 data \<Longrightarrow> \<exists>optLen. at data 17 = Some optLen"
  by (simp add: at_def)

lemma fetch_decoded_options_too_long:
  "18 \<le> length_u8 data \<Longrightarrow> verifyUUID data \<Longrightarrow> at data 17 = Some optLen \<Longrightarrow>
   18 + unat optLen + 4 > length_u8 data \<Longrightarrow>
   fetch_decoded throws decode data = Reject TooShort (makeResponse 400 None) []"
  by (simp add: fetch_decoded_def)

lemma fetch_decoded_header_ok:
  "18 \<le> length_u8 data \<Longrightarrow> verifyUUID data \<Longrightarrow> at data 17 = Some optLen \<Longrightarrow>
   18 + unat optLen + 4 \<le> length_u8 data \<Longrightarrow>
   fetch_decoded throws decode data =
     (case parseAddress decode data (18 + unat optLen) of
        Inl e \<Rightarrow> Uncaught e
      | Inr addr \<Rightarrow>
          if \<not> ok addr then Reject InvalidAddress (makeResponse 400 None) []
          else
            (case connectTCP throws (host addr)
                    (or (push_bit 8 (to_int32 (at data (19 + unat optLen))))
                        (to_int32 (at data (20 + unat optLen)))) [] of
               (Inl e, l) \<Rightarrow> Reject DestinationUnreachable (makeResponse 502 None) l
             | (Inr tcp, l) \<Rightarrow>
                 Upgrade (makeResponse 101 None)
                   (uplink_start data addr \<lparr>closed = False, isFirst = True, calls = l\<rparr>)))"
  by (simp add: fetch_decoded_def Let_def)

lemma fetch_decoded_header_ok_not_short:
  assumes "18 \<le> length_u8 data" "verifyUUID data" "at data 17 = Some optLen"
    "18 + unat optLen + 4 \<le> length_u8 data"
  shows "fetch_decoded throws decode data \<noteq> Reject TooShort r l"
  unfolding fetch_decoded_header_ok[OF assms]
  by (simp split: sum.splits prod.splits)

section \<open>The examples, evaluated\<close>

lemma ex_partial_match_facts:
  "wf_array ex_partial_match"
  "length_u8 ex_partial_match = 26"
  "take 16 (drop 1 (bytes_of ex_partial_match)) \<noteq> UUID"
proof -
  show "wf_array ex_partial_match"
    by (simp add: ex_partial_match_def wf_fresh_array)
  show "length_u8 ex_partial_match = 26"
    by (simp add: ex_partial_match_def fresh_array_def UUID_def)
  show "take 16 (drop 1 (bytes_of ex_partial_match)) \<noteq> UUID"
    by (simp add: ex_partial_match_def bytes_of_fresh_array UUID_def)
qed

lemma ex_long_options_facts:
  "length_u8 ex_long_options = 26"
  "verifyUUID ex_long_options"
  "at ex_long_options 17 = Some 200"
  by (simp_all add: ex_long_options_def fresh_array_def UUID_def verifyUUID_def at_def)

section \<open>From the request to the decoded blob\<close>

text \<open>
  Every blob \<open>fetch\<close> decodes is a fresh array, a window on the whole of its own buffer;
  on it \<open>fetch\<close> continues as \<open>fetch_decoded\<close>.
\<close>

lemma decodeBase64_wf: "decodeBase64 atob p = Some data \<Longrightarrow> wf_array data"
  by (auto simp: decodeBase64_def wf_fresh_array split: option.splits)

lemma fetch_decodes:
  assumes "upgrade req = Some (str ''websocket'')" and "protocol req = Some p" and "p \<noteq> []"
    and "decodeBase64 atob p = Some data"
  shows "fetch atob throws decode req = fetch_decoded throws decode data"
  using assms by (simp add: fetch_def)

section \<open>The handshake validator\<close>

text \<open>
  C1. Let the decoded blob have at least 18 bytes. Then \<open>verifyUUID\<close> accepts it exactly
  when its 16 bytes at offsets 1 to 16, as a whole, are the configured secret; and when they
  are not, \<open>fetch\<close> answers with \<open>Unauthorized\<close>, status 403, whatever the other bytes are,
  and calls nothing of the platform.
\<close>

theorem credential_mismatch_unauthorized:
  assumes "wf_array data" and "18 \<le> length_u8 data"
  shows "(verifyUUID data \<longleftrightarrow> take 16 (drop 1 (bytes_of data)) = UUID) \<and>
         (take 16 (drop 1 (bytes_of data)) \<noteq> UUID \<longrightarrow>
            fetch_decoded throws decode data = Reject Unauthorized (makeResponse 403 None) [] \<and>
            status (makeResponse 403 None) = 403)"
  using assms by (simp add: verifyUUID_iff fetch_decoded_unauthorized status_makeResponse)

theorem credential_mismatch_unauthorized_witness:
  "wf_array ex_partial_match \<and> 18 \<le> length_u8 ex_partial_match \<and>
   take 15 (drop 1 (bytes_of ex_partial_match)) = butlast UUID \<and>
   take 16 (drop 1 (bytes_of ex_partial_match)) \<noteq> UUID \<and>
   \<not> verifyUUID ex_partial_match \<and>
   fetch_decoded never_throws latin1_decode ex_partial_match =
     Reject Unauthorized (makeResponse 403 None) []"
proof -
  have len: "18 \<le> length_u8 ex_partial_match"
    by (simp add: ex_partial_match_facts)
  have partial: "take 15 (drop 1 (bytes_of ex_partial_match)) = butlast UUID"
    by (simp add: ex_partial_match_def bytes_of_fresh_array UUID_def)
  show ?thesis
    using credential_mismatch_unauthorized
      [OF ex_partial_match_facts(1) len, of never_throws latin1_decode]
      ex_partial_match_facts len partial
    by blast
qed

text \<open>
  C2. \<open>fetch\<close> answers a decoded blob with \<open>TooShort\<close> exactly when the blob has fewer than
  18 bytes, or it has at least 18, its credential is accepted and 18 plus the options length
  at offset 17 plus 4 exceeds its length. Every \<open>TooShort\<close> answer has status 400 and an
  empty log: no connection was attempted (both returns come before line 100, where the
  address is parsed).
\<close>

theorem too_short_iff:
  "(fetch_decoded throws decode data = Reject TooShort (makeResponse 400 None) [] \<longleftrightarrow>
      length_u8 data < 18 \<or>
      (18 \<le> length_u8 data \<and> verifyUUID data \<and>
       (\<exists>optLen. at data 17 = Some optLen \<and> 18 + unat optLen + 4 > length_u8 data))) \<and>
   (\<forall>r l. fetch_decoded throws decode data = Reject TooShort r l \<longrightarrow>
      r = makeResponse 400 None \<and> status r = 400 \<and> l = [])"
proof (cases "length_u8 data < 18")
  case True
  then show ?thesis by (simp add: fetch_decoded_short status_makeResponse)
next
  case long: False
  show ?thesis
  proof (cases "verifyUUID data")
    case False
    with long show ?thesis by (simp add: fetch_decoded_unauthorized)
  next
    case True
    from long obtain optLen where o: "at data 17 = Some optLen"
      using at_17[of data] by auto
    show ?thesis
    proof (cases "18 + unat optLen + 4 > length_u8 data")
      case True
      with long \<open>verifyUUID data\<close> o show ?thesis
        by (simp add: fetch_decoded_options_too_long status_makeResponse)
    next
      case False
      with long \<open>verifyUUID data\<close> o show ?thesis
        using fetch_decoded_header_ok_not_short[of data optLen throws decode] by simp
    qed
  qed
qed

theorem too_short_iff_witness:
  "fetch_decoded never_throws latin1_decode ex_long_options = Reject TooShort (makeResponse 400 None) [] \<and>
   18 \<le> length_u8 ex_long_options \<and> verifyUUID ex_long_options \<and>
   at ex_long_options 17 = Some 200 \<and> 18 + unat (200 :: byte) + 4 > length_u8 ex_long_options"
proof -
  have len: "18 \<le> length_u8 ex_long_options"
    and opt: "18 + unat (200 :: byte) + 4 > length_u8 ex_long_options"
    by (simp_all add: ex_long_options_facts)
  have "length_u8 ex_long_options < 18 \<or>
        (18 \<le> length_u8 ex_long_options \<and> verifyUUID ex_long_options \<and>
         (\<exists>optLen. at ex_long_options 17 = Some optLen \<and>
                   18 + unat optLen + 4 > length_u8 ex_long_options))"
    using len opt ex_long_options_facts by blast
  then have "fetch_decoded never_throws latin1_decode ex_long_options =
             Reject TooShort (makeResponse 400 None) []"
    using too_short_iff [of never_throws latin1_decode ex_long_options] by blast
  then show ?thesis
    using len opt ex_long_options_facts by blast
qed

section \<open>The address resolver\<close>

lemmas ATYPE_defs = ATYPE_DOMAIN_def ATYPE_IPV4_def ATYPE_IPV6_def

text \<open>\<open>parseAddress\<close>, family by family.\<close>

lemma parseAddress_domain:
  assumes "at data (offset + 3) = Some ATYPE_DOMAIN"
  shows "parseAddress decode data offset =
    (case at data (offset + 4) of
       None \<Rightarrow> Inr \<lparr>host = decode (bytes_of (subarray data (offset + 5) 0)),
                    end_offset = NaN, ok = False\<rparr>
     | Some l \<Rightarrow> Inr \<lparr>host = decode (bytes_of (subarray data (offset + 5) (offset + 5 + unat l))),
                     end_offset = Num (offset + 5 + unat l),
                     ok = (offset + 5 + unat l \<le> length_u8 data)\<rparr>)"
  using assms by (simp add: parseAddress_def Let_def add.commute split: option.splits)

lemma parseAddress_ipv4:
  assumes "at data (offset + 3) = Some ATYPE_IPV4"
  shows "\<exists>h. parseAddress decode data offset =
    Inr \<lparr>host = h, end_offset = Num (offset + 8), ok = (offset + 8 \<le> length_u8 data)\<rparr>"
  using assms by (simp add: parseAddress_def Let_def ATYPE_defs add.commute)

lemma parseAddress_ipv6_short:
  assumes "at data (offset + 3) = Some ATYPE_IPV6" and "length_u8 data < offset + 20"
  shows "parseAddress decode data offset = Inr \<lparr>host = [], end_offset = Num 0, ok = False\<rparr>"
  using assms by (simp add: parseAddress_def Let_def ATYPE_defs str_def chr_def)

lemma parseAddress_unknown:
  assumes "at data (offset + 3) \<notin> {Some ATYPE_DOMAIN, Some ATYPE_IPV4, Some ATYPE_IPV6}"
  shows "parseAddress decode data offset = Inr \<lparr>host = [], end_offset = Num 0, ok = False\<rparr>"
  using assms by (simp add: parseAddress_def Let_def str_def chr_def)

lemma length16:
  "length v = 16 \<Longrightarrow>
   \<exists>v0 v1 v2 v3 v4 v5 v6 v7 v8 v9 v10 v11 v12 v13 v14 v15.
     v = [v0, v1, v2, v3, v4, v5, v6, v7, v8, v9, v10, v11, v12, v13, v14, v15]"
  by (simp add: numeral_eq_Suc length_Suc_conv) blast

text \<open>The eight \<open>getUint16\<close> reads of line 53 are the big-endian pairs of the 16 bytes.\<close>

lemma ipv6_text:
  assumes "length v = 16"
  shows "toString 16 (getUint16 v 0) @ colon @ toString 16 (getUint16 v 2) @ colon @
         toString 16 (getUint16 v 4) @ colon @ toString 16 (getUint16 v 6) @ colon @
         toString 16 (getUint16 v 8) @ colon @ toString 16 (getUint16 v 10) @ colon @
         toString 16 (getUint16 v 12) @ colon @ toString 16 (getUint16 v 14)
         = join colon (map (toString 16) (be16_groups v))"
proof -
  from length16[OF assms] obtain v0 v1 v2 v3 v4 v5 v6 v7 v8 v9 v10 v11 v12 v13 v14 v15
    where v: "v = [v0, v1, v2, v3, v4, v5, v6, v7, v8, v9, v10, v11, v12, v13, v14, v15]"
    by blast
  show ?thesis
    unfolding v getUint16_def by simp
qed

lemma ipv6_example:
  "join colon (map (toString 16) (be16_groups [0x20, 0x01, 0x0d, 0xb8, 0, 0, 0, 0, 0, 0, 0, 0, 0, 0, 0, 1]))
   = str ''2001:db8:0:0:0:0:0:1''"
  by (simp add: colon_def str_def chr_def digit_def)

text \<open>\<open>toString(16)\<close> writes lowercase hexadecimal digits, with no leading zero.\<close>

lemma digit_hex: "d < 16 \<Longrightarrow> digit d \<in> set (str ''0123456789abcdef'')"
proof -
  have "\<forall>d<16. digit d \<in> set (str ''0123456789abcdef'')"
    unfolding all_less_16 by (simp add: digit_def str_def)
  then show "d < 16 \<Longrightarrow> digit d \<in> set (str ''0123456789abcdef'')" by blast
qed

lemma digit_nonzero: "0 < d \<Longrightarrow> d < 16 \<Longrightarrow> digit d \<noteq> chr CHR ''0''"
proof -
  have "\<forall>d<16. 0 < d \<longrightarrow> digit d \<noteq> chr CHR ''0''"
    unfolding all_less_16 by (simp add: digit_def chr_def)
  then show "0 < d \<Longrightarrow> d < 16 \<Longrightarrow> digit d \<noteq> chr CHR ''0''" by blast
qed

lemma toString_nonempty: "toString radix n \<noteq> []"
  by (subst toString.simps) (simp del: toString.simps)

lemma toString_hex_digits: "set (toString 16 n) \<subseteq> set (str ''0123456789abcdef'')"
proof (induction n rule: less_induct)
  case (less n)
  show ?case
  proof (cases "n < 16")
    case True
    then show ?thesis
      by (subst toString.simps) (simp add: digit_hex del: toString.simps)
  next
    case False
    then have "n div 16 < n" by simp
    from less.IH[OF this] False show ?thesis
      by (subst toString.simps) (simp add: digit_hex del: toString.simps)
  qed
qed

lemma toString_no_leading_zero: "0 < n \<Longrightarrow> hd (toString 16 n) \<noteq> chr CHR ''0''"
proof (induction n rule: less_induct)
  case (less n)
  show ?case
  proof (cases "n < 16")
    case True
    with less.prems show ?thesis
      by (subst toString.simps) (simp add: digit_nonzero del: toString.simps)
  next
    case False
    then have "n div 16 < n" and "0 < n div 16" by simp_all
    from less.IH[OF this] False show ?thesis
      by (subst toString.simps) (simp add: toString_nonempty del: toString.simps)
  qed
qed

lemma be16_groups_16:
  assumes "length v = 16"
  shows "length (be16_groups v) = 8"
proof -
  from length16[OF assms] obtain v0 v1 v2 v3 v4 v5 v6 v7 v8 v9 v10 v11 v12 v13 v14 v15
    where v: "v = [v0, v1, v2, v3, v4, v5, v6, v7, v8, v9, v10, v11, v12, v13, v14, v15]"
    by blast
  show ?thesis unfolding v by simp
qed

lemma parseAddress_ipv6:
  assumes "wf_array data"
    and "at data (offset + 3) = Some ATYPE_IPV6"
    and "offset + 20 \<le> length_u8 data"
  shows "parseAddress decode data offset =
           Inr \<lparr>host = join colon (map (toString 16)
                          (be16_groups (take 16 (drop (offset + 4) (bytes_of data))))),
                end_offset = Num (offset + 20), ok = True\<rparr>"
proof -
  let ?v = "take 16 (drop (offset + 4) (bytes_of data))"
  have len: "length ?v = 16"
    using assms(3) by (simp add: length_bytes_of[OF assms(1)])
  have dv: "DataView (buffer data) (byteOffset data + (offset + 4)) 16 = Inr ?v"
    using DataView_window[OF assms(1), of "offset + 4" 16] assms(3) by simp
  show ?thesis
    using assms(2,3)
    by (simp add: parseAddress_def Let_def ATYPE_defs dv ipv6_text[OF len, symmetric])
qed

text \<open>Line 47 on the octets 93, 184, 216, 34.\<close>

lemma ipv4_example:
  "template (Some 93) @ dot @ template (Some 184) @ dot @ template (Some 216) @ dot @
   template (Some 34) = str ''93.184.216.34''"
  by (simp add: template_def dot_def str_def chr_def digit_def)

text \<open>The resolver sees the blob only: two windows that show the same bytes parse alike.\<close>

lemma parseAddress_window:
  assumes "wf_array data"
  shows "parseAddress decode data offset = parseAddress decode (fresh_array (bytes_of data)) offset"
proof -
  let ?f = "fresh_array (bytes_of data)"
  have wf: "wf_array ?f" by (rule wf_fresh_array)
  have len: "length_u8 ?f = length_u8 data"
    by (simp add: fresh_array_def length_bytes_of[OF assms])
  have at: "\<And>i. at ?f i = at data i"
    by (simp add: at_bytes_of[OF assms] at_bytes_of[OF wf] len bytes_of_fresh_array)
  have sub: "\<And>b e. bytes_of (subarray ?f b e) = bytes_of (subarray data b e)"
    by (simp add: bytes_of_subarray len bytes_of_fresh_array)
  have dv: "offset + 4 + 16 \<le> length_u8 data \<Longrightarrow>
      DataView (buffer ?f) (byteOffset ?f + (offset + 4)) 16 =
      DataView (buffer data) (byteOffset data + (offset + 4)) 16"
    using DataView_window[OF assms, of "offset + 4" 16] DataView_window[OF wf, of "offset + 4" 16]
    by (simp add: len bytes_of_fresh_array)
  show ?thesis
    unfolding parseAddress_def Let_def at sub len
    using dv by (simp add: not_less)
qed

lemma parseAddress_props:
  assumes "wf_array data"
  shows "\<exists>r. parseAddress decode data offset = Inr r \<and>
           (ok r \<longrightarrow> (\<exists>e. end_offset r = Num e \<and> e \<le> length_u8 data)) \<and>
           (at data (offset + 3) \<notin> {Some ATYPE_DOMAIN, Some ATYPE_IPV4, Some ATYPE_IPV6} \<longrightarrow> \<not> ok r) \<and>
           (at data (offset + 3) = Some ATYPE_DOMAIN \<and>
              (\<forall>l. at data (offset + 4) = Some l \<longrightarrow> length_u8 data < offset + 5 + unat l) \<longrightarrow> \<not> ok r) \<and>
           (at data (offset + 3) = Some ATYPE_IPV4 \<and> length_u8 data < offset + 8 \<longrightarrow> \<not> ok r) \<and>
           (at data (offset + 3) = Some ATYPE_IPV6 \<and> length_u8 data < offset + 20 \<longrightarrow> \<not> ok r)"
proof -
  consider
      (domain) "at data (offset + 3) = Some ATYPE_DOMAIN"
    | (ipv4) "at data (offset + 3) = Some ATYPE_IPV4"
    | (ipv6_short) "at data (offset + 3) = Some ATYPE_IPV6" "length_u8 data < offset + 20"
    | (ipv6) "at data (offset + 3) = Some ATYPE_IPV6" "offset + 20 \<le> length_u8 data"
    | (unknown) "at data (offset + 3) \<notin> {Some ATYPE_DOMAIN, Some ATYPE_IPV4, Some ATYPE_IPV6}"
    by fastforce
  then show ?thesis
  proof cases
    case domain
    show ?thesis
      unfolding parseAddress_domain[OF domain] using domain
      by (cases "at data (offset + 4)") (simp_all add: ATYPE_defs)
  next
    case ipv4
    from parseAddress_ipv4[OF ipv4] obtain h where
      "parseAddress decode data offset =
         Inr \<lparr>host = h, end_offset = Num (offset + 8), ok = (offset + 8 \<le> length_u8 data)\<rparr>"
      by blast
    then show ?thesis using ipv4 by (simp add: ATYPE_defs)
  next
    case ipv6_short
    show ?thesis
      unfolding parseAddress_ipv6_short[OF ipv6_short] using ipv6_short by (simp add: ATYPE_defs)
  next
    case ipv6
    show ?thesis
      unfolding parseAddress_ipv6[OF assms ipv6] using ipv6 by (simp add: ATYPE_defs)
  next
    case unknown
    show ?thesis
      unfolding parseAddress_unknown[OF unknown] using unknown by simp
  qed
qed

lemma ex_ipv6_facts:
  "wf_array ex_ipv6"
  "length_u8 ex_ipv6 = 38"
  "at ex_ipv6 21 = Some ATYPE_IPV6"
  "take 16 (drop 22 (bytes_of ex_ipv6)) = [0x20, 0x01, 0x0d, 0xb8, 0, 0, 0, 0, 0, 0, 0, 0, 0, 0, 0, 1]"
  by (simp_all add: ex_ipv6_def ex_header_def UUID_def wf_array_def at_def bytes_of_def ATYPE_defs)

lemma ex_ipv6_cut_facts:
  "wf_array ex_ipv6_cut"
  "length_u8 ex_ipv6_cut = 30"
  "at ex_ipv6_cut 21 = Some ATYPE_IPV6"
  by (simp_all add: ex_ipv6_cut_def ex_ipv6_def ex_header_def UUID_def wf_array_def at_def ATYPE_defs)

lemma ex_domain_facts:
  "wf_array ex_domain"
  "length_u8 ex_domain = 28"
  "verifyUUID ex_domain"
  "at ex_domain 17 = Some 0"
  "at ex_domain 19 = Some 1"
  "at ex_domain 20 = Some 0xBB"
  "at ex_domain 21 = Some ATYPE_DOMAIN"
  "at ex_domain 22 = Some 3"
  "take 3 (drop 23 (bytes_of ex_domain)) = [0x61, 0x62, 0x63]"
  "drop 26 (bytes_of ex_domain) = [9, 9]"
proof -
  show "wf_array ex_domain"
    by (simp add: ex_domain_def wf_fresh_array)
  show "take 3 (drop 23 (bytes_of ex_domain)) = [0x61, 0x62, 0x63]"
    "drop 26 (bytes_of ex_domain) = [9, 9]"
    by (simp_all add: ex_domain_def bytes_of_fresh_array ex_header_def UUID_def)
  show "length_u8 ex_domain = 28" "verifyUUID ex_domain" "at ex_domain 17 = Some 0"
    "at ex_domain 19 = Some 1" "at ex_domain 20 = Some 0xBB"
    "at ex_domain 21 = Some ATYPE_DOMAIN" "at ex_domain 22 = Some 3"
    by (simp_all add: ex_domain_def fresh_array_def ex_header_def UUID_def verifyUUID_def at_def ATYPE_defs)
qed

text \<open>
  C3. On a blob as the platform builds it, for every offset (in particular every
  \<open>addrOffset\<close> with \<open>addrOffset + 4\<close> within the blob), the resolver returns a descriptor
  without throwing. The descriptor is valid only if its end offset is a number within the
  blob's length. It is invalid for an unknown family code and whenever the family's end
  offset would pass the blob's length (a domain whose length byte is missing or reaches
  past the end, an IPv4 address ending after \<open>offset + 8\<close>, an IPv6 address after
  \<open>offset + 20\<close>). No byte outside the blob is read: every other window that shows the same
  bytes, whatever surrounds it in its buffer, yields the same descriptor. The resolver is a
  function of the blob that returns the descriptor only; the source assigns to no element
  of \<open>data\<close> or of its buffer, so there is no changed blob to return.
\<close>

theorem parseAddress_in_bounds:
  assumes "wf_array data"
  shows "\<exists>r. parseAddress decode data offset = Inr r \<and>
           (ok r \<longrightarrow> (\<exists>e. end_offset r = Num e \<and> e \<le> length_u8 data)) \<and>
           (at data (offset + 3) \<notin> {Some ATYPE_DOMAIN, Some ATYPE_IPV4, Some ATYPE_IPV6} \<longrightarrow> \<not> ok r) \<and>
           (at data (offset + 3) = Some ATYPE_DOMAIN \<and>
              (\<forall>l. at data (offset + 4) = Some l \<longrightarrow> length_u8 data < offset + 5 + unat l) \<longrightarrow> \<not> ok r) \<and>
           (at data (offset + 3) = Some ATYPE_IPV4 \<and> length_u8 data < offset + 8 \<longrightarrow> \<not> ok r) \<and>
           (at data (offset + 3) = Some ATYPE_IPV6 \<and> length_u8 data < offset + 20 \<longrightarrow> \<not> ok r) \<and>
           (\<forall>other. wf_array other \<and> bytes_of other = bytes_of data \<longrightarrow>
              parseAddress decode other offset = Inr r)"
proof -
  from parseAddress_props[OF assms, of decode offset] obtain r where
    r: "parseAddress decode data offset = Inr r" and
    props: "ok r \<longrightarrow> (\<exists>e. end_offset r = Num e \<and> e \<le> length_u8 data)"
      "at data (offset + 3) \<notin> {Some ATYPE_DOMAIN, Some ATYPE_IPV4, Some ATYPE_IPV6} \<longrightarrow> \<not> ok r"
      "at data (offset + 3) = Some ATYPE_DOMAIN \<and>
         (\<forall>l. at data (offset + 4) = Some l \<longrightarrow> length_u8 data < offset + 5 + unat l) \<longrightarrow> \<not> ok r"
      "at data (offset + 3) = Some ATYPE_IPV4 \<and> length_u8 data < offset + 8 \<longrightarrow> \<not> ok r"
      "at data (offset + 3) = Some ATYPE_IPV6 \<and> length_u8 data < offset + 20 \<longrightarrow> \<not> ok r"
    by blast
  have same: "parseAddress decode other offset = Inr r"
    if "wf_array other" and "bytes_of other = bytes_of data" for other
    using parseAddress_window[OF that(1), of decode offset]
      parseAddress_window[OF assms, of decode offset] that(2) r
    by simp
  then have same': "\<forall>other. wf_array other \<and> bytes_of other = bytes_of data \<longrightarrow>
      parseAddress decode other offset = Inr r"
    by blast
  show ?thesis
    by (rule exI[of _ r]) (intro conjI r props same')
qed

theorem parseAddress_in_bounds_witness:
  "wf_array ex_ipv6_cut \<and> 18 + 4 \<le> length_u8 ex_ipv6_cut \<and>
   length_u8 ex_ipv6_cut < 18 + 20 \<and> 18 + 20 \<le> length (buffer ex_ipv6_cut) \<and>
   parseAddress latin1_decode ex_ipv6_cut 18 = Inr \<lparr>host = [], end_offset = Num 0, ok = False\<rparr> \<and>
   parseAddress latin1_decode (fresh_array (bytes_of ex_ipv6_cut)) 18 =
     Inr \<lparr>host = [], end_offset = Num 0, ok = False\<rparr>"
proof -
  from parseAddress_in_bounds[OF ex_ipv6_cut_facts(1), of latin1_decode 18] obtain r where
    r: "parseAddress latin1_decode ex_ipv6_cut 18 = Inr r" and
    same: "\<forall>other. wf_array other \<and> bytes_of other = bytes_of ex_ipv6_cut \<longrightarrow>
             parseAddress latin1_decode other 18 = Inr r"
    by blast
  have short: "parseAddress latin1_decode ex_ipv6_cut 18 = Inr \<lparr>host = [], end_offset = Num 0, ok = False\<rparr>"
    using parseAddress_ipv6_short[of ex_ipv6_cut 18 latin1_decode]
    by (simp add: ex_ipv6_cut_facts)
  with r have r_eq: "r = \<lparr>host = [], end_offset = Num 0, ok = False\<rparr>"
    by simp
  have "bytes_of (fresh_array (bytes_of ex_ipv6_cut)) = bytes_of ex_ipv6_cut"
    by (rule bytes_of_fresh_array)
  with same wf_fresh_array have
    "parseAddress latin1_decode (fresh_array (bytes_of ex_ipv6_cut)) 18 = Inr r"
    by blast
  moreover have "18 + 20 \<le> length (buffer ex_ipv6_cut)"
    by (simp add: ex_ipv6_cut_def ex_ipv6_def ex_header_def UUID_def)
  ultimately show ?thesis
    using short r_eq by (simp add: ex_ipv6_cut_facts)
qed

text \<open>
  C4. A domain address (family byte 2 at \<open>offset + 3\<close>) with length byte \<open>l\<close> at
  \<open>offset + 4\<close> and \<open>offset + 5 + l\<close> within the blob is valid, ends at \<open>offset + 5 + l\<close>,
  and its host is the platform's text decoding of exactly the \<open>l\<close> bytes from
  \<open>offset + 5\<close> on: the length byte is not part of it.
\<close>

theorem domain_address:
  assumes "at data (offset + 3) = Some ATYPE_DOMAIN"
    and "at data (offset + 4) = Some l"
    and "offset + 5 + unat l \<le> length_u8 data"
  shows "parseAddress decode data offset =
         Inr \<lparr>host = decode (take (unat l) (drop (offset + 5) (bytes_of data))),
              end_offset = Num (offset + 5 + unat l), ok = True\<rparr>"
proof -
  have "bytes_of (subarray data (offset + 5) (offset + 5 + unat l)) =
        take (unat l) (drop (offset + 5) (bytes_of data))"
    using assms(3) bytes_of_subarray_inside[of "offset + 5" "offset + 5 + unat l" data]
    by simp
  then show ?thesis
    using assms by (simp add: parseAddress_domain)
qed

theorem domain_address_witness:
  "at ex_domain (18 + 3) = Some ATYPE_DOMAIN \<and> at ex_domain (18 + 4) = Some 3 \<and>
   18 + 5 + unat (3 :: byte) \<le> length_u8 ex_domain \<and>
   parseAddress latin1_decode ex_domain 18 =
     Inr \<lparr>host = str ''abc'', end_offset = Num 26, ok = True\<rparr>"
proof -
  have h: "at ex_domain (18 + 3) = Some ATYPE_DOMAIN" "at ex_domain (18 + 4) = Some 3"
    "18 + 5 + unat (3 :: byte) \<le> length_u8 ex_domain"
    by (simp_all add: ex_domain_facts)
  have "latin1_decode (take (unat (3 :: byte)) (drop (18 + 5) (bytes_of ex_domain))) = str ''abc''"
    by (simp add: ex_domain_facts latin1_decode_def str_def chr_def)
  then show ?thesis
    using domain_address[OF h, of latin1_decode] h by simp
qed

text \<open>
  C5. An IPv6 address (family byte 3) with \<open>offset + 20\<close> within the blob ends at
  \<open>offset + 20\<close>; its host is the 16 bytes from \<open>offset + 4\<close> on, read as 8 big-endian
  16-bit groups, each written by \<open>toString(16)\<close>, joined with colons. There are always 8
  groups (a run of zero groups is not compressed), each written in the digits
  \<open>0123456789abcdef\<close> with no leading zero. The groups \<open>2001, 0db8, 0, 0, 0, 0, 0, 1\<close>
  give \<open>2001:db8:0:0:0:0:0:1\<close>.
\<close>

theorem ipv6_address:
  assumes "wf_array data"
    and "at data (offset + 3) = Some ATYPE_IPV6"
    and "offset + 20 \<le> length_u8 data"
  shows "parseAddress decode data offset =
           Inr \<lparr>host = join colon (map (toString 16)
                          (be16_groups (take 16 (drop (offset + 4) (bytes_of data))))),
                end_offset = Num (offset + 20), ok = True\<rparr> \<and>
         length (be16_groups (take 16 (drop (offset + 4) (bytes_of data)))) = 8 \<and>
         (\<forall>g. set (toString 16 g) \<subseteq> set (str ''0123456789abcdef'') \<and>
              (0 < g \<longrightarrow> hd (toString 16 g) \<noteq> chr CHR ''0'')) \<and>
         (take 16 (drop (offset + 4) (bytes_of data)) =
            [0x20, 0x01, 0x0d, 0xb8, 0, 0, 0, 0, 0, 0, 0, 0, 0, 0, 0, 1] \<longrightarrow>
          parseAddress decode data offset =
            Inr \<lparr>host = str ''2001:db8:0:0:0:0:0:1'', end_offset = Num (offset + 20), ok = True\<rparr>)"
proof (intro conjI impI allI)
  let ?v = "take 16 (drop (offset + 4) (bytes_of data))"
  show main: "parseAddress decode data offset =
      Inr \<lparr>host = join colon (map (toString 16) (be16_groups ?v)),
           end_offset = Num (offset + 20), ok = True\<rparr>"
    by (rule parseAddress_ipv6[OF assms])
  have "length ?v = 16"
    using assms(3) by (simp add: length_bytes_of[OF assms(1)])
  then show "length (be16_groups ?v) = 8"
    by (rule be16_groups_16)
  show "set (toString 16 g) \<subseteq> set (str ''0123456789abcdef'')" for g
    by (rule toString_hex_digits)
  show "hd (toString 16 g) \<noteq> chr CHR ''0''" if "0 < g" for g
    using that by (rule toString_no_leading_zero)
  assume eq: "?v = [0x20, 0x01, 0x0d, 0xb8, 0, 0, 0, 0, 0, 0, 0, 0, 0, 0, 0, 1]"
  show "parseAddress decode data offset =
          Inr \<lparr>host = str ''2001:db8:0:0:0:0:0:1'', end_offset = Num (offset + 20), ok = True\<rparr>"
    unfolding main eq ipv6_example ..
qed

theorem ipv6_address_witness:
  "wf_array ex_ipv6 \<and> at ex_ipv6 (18 + 3) = Some ATYPE_IPV6 \<and> 18 + 20 \<le> length_u8 ex_ipv6 \<and>
   take 16 (drop (18 + 4) (bytes_of ex_ipv6)) =
     [0x20, 0x01, 0x0d, 0xb8, 0, 0, 0, 0, 0, 0, 0, 0, 0, 0, 0, 1] \<and>
   parseAddress latin1_decode ex_ipv6 18 =
     Inr \<lparr>host = str ''2001:db8:0:0:0:0:0:1'', end_offset = Num 38, ok = True\<rparr>"
proof -
  have h: "at ex_ipv6 (18 + 3) = Some ATYPE_IPV6" "18 + 20 \<le> length_u8 ex_ipv6"
    and bytes: "take 16 (drop (18 + 4) (bytes_of ex_ipv6)) =
      [0x20, 0x01, 0x0d, 0xb8, 0, 0, 0, 0, 0, 0, 0, 0, 0, 0, 0, 1]"
    by (simp_all add: ex_ipv6_facts)
  from ipv6_address[OF ex_ipv6_facts(1) h, of latin1_decode] bytes
  have "parseAddress latin1_decode ex_ipv6 18 =
          Inr \<lparr>host = str ''2001:db8:0:0:0:0:0:1'', end_offset = Num (18 + 20), ok = True\<rparr>"
    by blast
  then show ?thesis
    using h bytes ex_ipv6_facts(1) by simp
qed

section \<open>Connecting\<close>

lemma perform_eq:
  "perform throws c l = (if throws l c then Inl Thrown else Inr (), l @ [(c, throws l c)])"
  by (simp add: perform_def)

text \<open>One attempt, as lines 62 to 64 and lines 66 to 68 make it.\<close>

lemma attempt_eq:
  "seq (perform throws (Connect h p)) (seq (perform throws (Opened h p)) (return (h, p))) l =
     (if throws l (Connect h p) then (Inl Thrown, l @ [(Connect h p, True)])
      else if throws (l @ [(Connect h p, False)]) (Opened h p)
           then (Inl Thrown, l @ [(Connect h p, False), (Opened h p, True)])
           else (Inr (h, p), l @ attempt_ok h p))"
  by (simp add: seq_def bind_def return_def perform_eq attempt_ok_def)

lemma attempt_cases:
  obtains (ok) "seq (perform throws (Connect h p)) (seq (perform throws (Opened h p)) (return (h, p))) l
                 = (Inr (h, p), l @ attempt_ok h p)"
  | (failed) d where "d \<in> attempt_failed h p"
      "seq (perform throws (Connect h p)) (seq (perform throws (Opened h p)) (return (h, p))) l
                 = (Inl Thrown, l @ d)"
  unfolding attempt_eq attempt_failed_def
  by (cases "throws l (Connect h p)"; cases "throws (l @ [(Connect h p, False)]) (Opened h p)") auto

lemma connectTCP_outcomes:
  "\<exists>new. snd (connectTCP throws h p l) = l @ new \<and>
     (fst (connectTCP throws h p l) = Inr (h, p) \<and> new = attempt_ok h p \<or>
      (\<exists>d\<in>attempt_failed h p.
         fst (connectTCP throws h p l) = Inr (PROXY_HOST, PROXY_PORT) \<and>
         new = d @ attempt_ok PROXY_HOST PROXY_PORT) \<or>
      (\<exists>d\<in>attempt_failed h p. \<exists>f\<in>attempt_failed PROXY_HOST PROXY_PORT.
         fst (connectTCP throws h p l) = Inl Thrown \<and> new = d @ f))"
proof (cases rule: attempt_cases[of throws h p l])
  case ok
  then show ?thesis
    by (simp add: connectTCP_def try_catch_def)
next
  case (failed d)
  show ?thesis
  proof (cases rule: attempt_cases[of throws PROXY_HOST PROXY_PORT "l @ d"])
    case ok
    with failed show ?thesis
      by (auto simp add: connectTCP_def try_catch_def)
  next
    case (failed f)
    with \<open>d \<in> attempt_failed h p\<close>
      \<open>seq (perform throws (Connect h p)) (seq (perform throws (Opened h p)) (return (h, p))) l
         = (Inl Thrown, l @ d)\<close>
    show ?thesis
      by (auto simp add: connectTCP_def try_catch_def)
  qed
qed

lemma connects_append: "connects (l @ l') = connects l @ connects l'"
  by (induction l rule: connects.induct) simp_all

lemma sent_frames_append: "sent_frames (l @ l') = sent_frames l @ sent_frames l'"
  by (induction l rule: sent_frames.induct) simp_all

lemma enqueued_append: "enqueued (l @ l') = enqueued l @ enqueued l'"
  by (induction l rule: enqueued.induct) simp_all

lemma closes_append: "closes (l @ l') = closes l @ closes l'"
  by (induction l rule: closes.induct) simp_all

lemma attempt_ok_observed:
  "connects (attempt_ok h p) = [(h, p)]" "sent_frames (attempt_ok h p) = []"
  "enqueued (attempt_ok h p) = []" "closes (attempt_ok h p) = []"
  by (simp_all add: attempt_ok_def)

lemma attempt_failed_observed:
  assumes "d \<in> attempt_failed h p"
  shows "connects d = [(h, p)]" "sent_frames d = []" "enqueued d = []" "closes d = []"
  using assms by (auto simp: attempt_failed_def)

text \<open>What a log of \<open>connectTCP\<close> shows: one or two \<open>connect\<close> calls, and nothing else.\<close>

lemma connectTCP_observed:
  assumes "connectTCP throws h p [] = (r, l)"
  shows "connects l = [(h, p)] \<or> connects l = [(h, p), (PROXY_HOST, PROXY_PORT)]"
    and "sent_frames l = []" and "enqueued l = []" and "closes l = []"
proof -
  from connectTCP_outcomes[of throws h p "[]"] assms
  consider "l = attempt_ok h p"
    | d where "d \<in> attempt_failed h p" "l = d @ attempt_ok PROXY_HOST PROXY_PORT"
    | d f where "d \<in> attempt_failed h p" "f \<in> attempt_failed PROXY_HOST PROXY_PORT" "l = d @ f"
    by auto
  then have "(connects l = [(h, p)] \<or> connects l = [(h, p), (PROXY_HOST, PROXY_PORT)]) \<and>
             sent_frames l = [] \<and> enqueued l = [] \<and> closes l = []"
    by cases
      (simp_all add: attempt_ok_observed attempt_failed_observed connects_append
         sent_frames_append enqueued_append closes_append)
  then show "connects l = [(h, p)] \<or> connects l = [(h, p), (PROXY_HOST, PROXY_PORT)]"
    and "sent_frames l = []" and "enqueued l = []" and "closes l = []"
    by simp_all
qed

section \<open>Which blobs reach the connection\<close>

lemma fetch_decoded_cases:
  obtains
    (too_short) "fetch_decoded throws decode data = Reject TooShort (makeResponse 400 None) []"
  | (unauthorized) "fetch_decoded throws decode data = Reject Unauthorized (makeResponse 403 None) []"
  | (uncaught) e where "fetch_decoded throws decode data = Uncaught e"
  | (invalid) "fetch_decoded throws decode data = Reject InvalidAddress (makeResponse 400 None) []"
  | (unreachable) optLen addr l where
      "18 \<le> length_u8 data" "verifyUUID data" "at data 17 = Some optLen"
      "18 + unat optLen + 4 \<le> length_u8 data"
      "parseAddress decode data (18 + unat optLen) = Inr addr" "ok addr"
      "connectTCP throws (host addr)
         (or (push_bit 8 (to_int32 (at data (19 + unat optLen))))
             (to_int32 (at data (20 + unat optLen)))) [] = (Inl Thrown, l)"
      "fetch_decoded throws decode data = Reject DestinationUnreachable (makeResponse 502 None) l"
  | (upgraded) optLen addr tcp l where
      "18 \<le> length_u8 data" "verifyUUID data" "at data 17 = Some optLen"
      "18 + unat optLen + 4 \<le> length_u8 data"
      "parseAddress decode data (18 + unat optLen) = Inr addr" "ok addr"
      "connectTCP throws (host addr)
         (or (push_bit 8 (to_int32 (at data (19 + unat optLen))))
             (to_int32 (at data (20 + unat optLen)))) [] = (Inr tcp, l)"
      "fetch_decoded throws decode data =
         Upgrade (makeResponse 101 None)
           (uplink_start data addr \<lparr>closed = False, isFirst = True, calls = l\<rparr>)"
proof (cases "length_u8 data < 18")
  case True
  then show ?thesis using too_short by (simp add: fetch_decoded_short)
next
  case long: False
  show ?thesis
  proof (cases "verifyUUID data")
    case False
    with long show ?thesis using unauthorized by (simp add: fetch_decoded_unauthorized)
  next
    case valid: True
    from long obtain optLen where o: "at data 17 = Some optLen"
      using at_17[of data] by auto
    show ?thesis
    proof (cases "18 + unat optLen + 4 > length_u8 data")
      case True
      with long valid o show ?thesis
        using too_short by (simp add: fetch_decoded_options_too_long)
    next
      case False
      then have fits: "18 + unat optLen + 4 \<le> length_u8 data" by simp
      from long have long': "18 \<le> length_u8 data" by simp
      note eq = fetch_decoded_header_ok[OF long' valid o fits, of throws decode]
      show ?thesis
      proof (cases "parseAddress decode data (18 + unat optLen)")
        case (Inl e)
        with eq show ?thesis using uncaught by simp
      next
        case (Inr addr)
        show ?thesis
        proof (cases "ok addr")
          case False
          with eq Inr show ?thesis using invalid by simp
        next
          case True
          obtain r l where c: "connectTCP throws (host addr)
             (or (push_bit 8 (to_int32 (at data (19 + unat optLen))))
                 (to_int32 (at data (20 + unat optLen)))) [] = (r, l)"
            by (cases "connectTCP throws (host addr)
             (or (push_bit 8 (to_int32 (at data (19 + unat optLen))))
                 (to_int32 (at data (20 + unat optLen)))) []") blast
          show ?thesis
          proof (cases r)
            case (Inl e)
            then have "r = Inl Thrown" by (cases e) simp
            with eq Inr True c show ?thesis
              using unreachable[OF long' valid o fits Inr True] by simp
          next
            case r: (Inr tcp)
            with eq Inr True c show ?thesis
              using upgraded[OF long' valid o fits Inr True] by simp
          qed
        qed
      qed
    qed
  qed
qed

section \<open>The handlers of a session\<close>

lemma invoke_eq:
  "invoke throws c s =
     (if throws (calls s) c then Inl Thrown else Inr (),
      s\<lparr>calls := calls s @ [(c, throws (calls s) c)]\<rparr>)"
  by (simp add: invoke_def perform_def)

lemma try_invoke_eq:
  "try_catch (invoke throws c) (return ()) s =
     (Inr (), s\<lparr>calls := calls s @ [(c, throws (calls s) c)]\<rparr>)"
  by (simp add: try_catch_def invoke_eq return_def)

lemma shutdown_eq:
  "shutdown throws s =
     (Inr (),
      if closed s then s
      else s\<lparr>closed := True,
             calls := calls s @
               [(ServerClose, throws (calls s) ServerClose),
                (TcpClose, throws (calls s @ [(ServerClose, throws (calls s) ServerClose)]) TcpClose)]\<rparr>)"
  by (simp add: shutdown_def seq_def bind_def return_def try_invoke_eq)

lemma on_message_eq:
  "on_message throws encode p s =
     (Inr (),
      if throws (calls s) (Enqueue (payload_bytes encode p))
      then snd (shutdown throws (s\<lparr>calls := calls s @ [(Enqueue (payload_bytes encode p), True)]\<rparr>))
      else s\<lparr>calls := calls s @ [(Enqueue (payload_bytes encode p), False)]\<rparr>)"
  by (cases p) (simp_all add: on_message_def try_catch_def invoke_eq payload_bytes_def shutdown_eq)

lemma on_close_eq:
  "on_close throws s =
     (Inr (), s\<lparr>calls := calls s @ [(ControllerClose, throws (calls s) ControllerClose)]\<rparr>)"
  by (simp add: on_close_def try_invoke_eq)

lemma downlink_write_eq:
  "downlink_write throws chunk s =
     (let frame = (if isFirst s then [0, 0] @ chunk else chunk)
      in (if throws (calls s) (ServerSend frame) then Inl Thrown else Inr (),
          s\<lparr>isFirst := False,
            calls := calls s @ [(ServerSend frame, throws (calls s) (ServerSend frame))]\<rparr>))"
  by (simp add: downlink_write_def seq_def bind_def return_def invoke_eq)

lemma shutdown_observed:
  "isFirst (snd (shutdown throws s)) = isFirst s"
  "sent_frames (calls (snd (shutdown throws s))) = sent_frames (calls s)"
  "enqueued (calls (snd (shutdown throws s))) = enqueued (calls s)"
  "connects (calls (snd (shutdown throws s))) = connects (calls s)"
  by (simp_all add: shutdown_eq sent_frames_append enqueued_append connects_append)

text \<open>What one handler adds to each observation.\<close>

lemma handler_isFirst:
  "isFirst (snd (handler throws encode ev s)) =
   (case ev of DownlinkWrite c \<Rightarrow> False | _ \<Rightarrow> isFirst s)"
  by (cases ev)
     (simp_all add: shutdown_observed on_message_eq on_close_eq downlink_write_eq Let_def)

lemma handler_sent_frames:
  "sent_frames (calls (snd (handler throws encode ev s))) =
   sent_frames (calls s) @
     (case ev of DownlinkWrite c \<Rightarrow> [if isFirst s then [0, 0] @ c else c] | _ \<Rightarrow> [])"
  by (cases ev)
     (simp_all add: shutdown_observed on_message_eq on_close_eq downlink_write_eq Let_def
        sent_frames_append)

lemma handler_enqueued:
  "enqueued (calls (snd (handler throws encode ev s))) =
   enqueued (calls s) @
     (case ev of
        Message p \<Rightarrow> [(payload_bytes encode p, throws (calls s) (Enqueue (payload_bytes encode p)))]
      | _ \<Rightarrow> [])"
  by (cases ev)
     (simp_all add: shutdown_observed on_message_eq on_close_eq downlink_write_eq Let_def
        enqueued_append)

lemma handler_connects:
  "connects (calls (snd (handler throws encode ev s))) = connects (calls s)"
  by (cases ev)
     (simp_all add: shutdown_observed on_message_eq on_close_eq downlink_write_eq Let_def
        connects_append)

section \<open>Runs\<close>

lemma run_connects: "connects (calls (run throws encode evs s)) = connects (calls s)"
  by (induction evs arbitrary: s) (simp_all add: handler_connects del: handler.simps)

lemma run_sent_frames:
  "sent_frames (calls (run throws encode evs s)) =
   sent_frames (calls s) @ (if isFirst s then framed (chunks evs) else chunks evs)"
proof (induction evs arbitrary: s)
  case Nil
  then show ?case by simp
next
  case (Cons ev evs)
  let ?s' = "snd (handler throws encode ev s)"
  have "sent_frames (calls (run throws encode (ev # evs) s)) =
        sent_frames (calls ?s') @ (if isFirst ?s' then framed (chunks evs) else chunks evs)"
    by (simp add: Cons.IH del: handler.simps)
  also have "\<dots> = sent_frames (calls s) @
      (if isFirst s then framed (chunks (ev # evs)) else chunks (ev # evs))"
    unfolding handler_isFirst handler_sent_frames by (cases ev) simp_all
  finally show ?case .
qed

lemma run_enqueued:
  "\<exists>flags. length flags = length (messages evs) \<and>
     enqueued (calls (run throws encode evs s)) =
     enqueued (calls s) @ zip (map (payload_bytes encode) (messages evs)) flags"
proof (induction evs arbitrary: s)
  case Nil
  then show ?case by simp
next
  case (Cons ev evs)
  let ?s' = "snd (handler throws encode ev s)"
  from Cons.IH[of ?s'] obtain flags where
    len: "length flags = length (messages evs)" and
    eq: "enqueued (calls (run throws encode evs ?s')) =
         enqueued (calls ?s') @ zip (map (payload_bytes encode) (messages evs)) flags"
    by blast
  have run: "run throws encode (ev # evs) s = run throws encode evs ?s'"
    by simp
  show ?case
  proof (cases "\<exists>p. ev = Message p")
    case True
    then obtain p where ev: "ev = Message p" by blast
    let ?flags = "throws (calls s) (Enqueue (payload_bytes encode p)) # flags"
    have "enqueued (calls (run throws encode (ev # evs) s)) =
          enqueued (calls s) @ zip (map (payload_bytes encode) (messages (ev # evs))) ?flags"
      unfolding run eq handler_enqueued by (simp add: ev)
    moreover have "length ?flags = length (messages (ev # evs))"
      by (simp add: len ev)
    ultimately show ?thesis by blast
  next
    case False
    then have same: "messages (ev # evs) = messages evs"
      and none: "enqueued (calls ?s') = enqueued (calls s)"
      unfolding handler_enqueued by (cases ev; simp)+
    have "enqueued (calls (run throws encode (ev # evs) s)) =
          enqueued (calls s) @ zip (map (payload_bytes encode) (messages (ev # evs))) flags"
      unfolding run eq none same ..
    moreover have "length flags = length (messages (ev # evs))"
      by (simp add: len same)
    ultimately show ?thesis by blast
  qed
qed

lemma uplink_start_observed:
  "isFirst (uplink_start data addr s) = isFirst s"
  "closed (uplink_start data addr s) = closed s"
  "sent_frames (calls (uplink_start data addr s)) = sent_frames (calls s)"
  "connects (calls (uplink_start data addr s)) = connects (calls s)"
  by (simp_all add: uplink_start_def sent_frames_append connects_append)

section \<open>Closing happens once\<close>

lemma closed_once_shutdown: "closed_once s \<Longrightarrow> closed_once (snd (shutdown throws s))"
  by (simp add: closed_once_def shutdown_eq closes_append)

lemma closed_once_handler:
  assumes "closed_once s"
  shows "closed_once (snd (handler throws encode ev s))"
proof (cases ev)
  case (Message p)
  let ?s1 = "s\<lparr>calls := calls s @ [(Enqueue (payload_bytes encode p),
                throws (calls s) (Enqueue (payload_bytes encode p)))]\<rparr>"
  from assms have s1: "closed_once ?s1"
    by (simp add: closed_once_def closes_append)
  have "snd (handler throws encode ev s) = ?s1 \<or>
        snd (handler throws encode ev s) = snd (shutdown throws ?s1)"
    by (simp add: Message on_message_eq)
  with s1 closed_once_shutdown[OF s1, of throws] show ?thesis
    by auto
next
  case Close
  with assms show ?thesis
    by (simp add: on_close_eq closed_once_def closes_append)
next
  case (DownlinkWrite c)
  with assms show ?thesis
    by (simp add: downlink_write_eq Let_def closed_once_def closes_append)
qed (use assms in \<open>simp_all add: closed_once_shutdown\<close>)

lemma closed_once_run: "closed_once s \<Longrightarrow> closed_once (run throws encode evs s)"
  by (induction evs arbitrary: s) (simp_all add: closed_once_handler del: handler.simps)

section \<open>The example session, evaluated\<close>

lemma ex_domain_parse:
  "parseAddress latin1_decode ex_domain 18 = Inr \<lparr>host = str ''abc'', end_offset = Num 26, ok = True\<rparr>"
proof -
  have "bytes_of (subarray ex_domain (18 + 5) (18 + 5 + unat (3 :: byte))) =
        take (unat (3 :: byte)) (drop (18 + 5) (bytes_of ex_domain))"
    using bytes_of_subarray_inside[of "18 + 5" "18 + 5 + unat (3 :: byte)" ex_domain]
    by (simp add: ex_domain_facts)
  then have "latin1_decode (bytes_of (subarray ex_domain (18 + 5) (18 + 5 + unat (3 :: byte)))) = str ''abc''"
    by (simp add: ex_domain_facts latin1_decode_def str_def chr_def)
  then show ?thesis
    using parseAddress_domain[of ex_domain 18 latin1_decode]
    by (simp add: ex_domain_facts)
qed

lemma ex_domain_port:
  "or (push_bit 8 (to_int32 (at ex_domain 19))) (to_int32 (at ex_domain 20)) = (443 :: nat)"
  by (simp add: ex_domain_facts to_int32_def)

lemma ex_domain_connect:
  "connectTCP never_throws (str ''abc'') 443 [] =
     (Inr (str ''abc'', 443), [(Connect (str ''abc'') 443, False), (Opened (str ''abc'') 443, False)])"
  by (simp add: attempt_eq connectTCP_def try_catch_def never_throws_def attempt_ok_def)

lemma ex_domain_unreachable:
  "connectTCP no_network (str ''abc'') 443 [] =
     (Inl Thrown, [(Connect (str ''abc'') 443, True), (Connect PROXY_HOST PROXY_PORT, True)])"
  by (simp add: attempt_eq connectTCP_def try_catch_def no_network_def)

lemma ex_domain_header:
  "18 \<le> length_u8 ex_domain" "verifyUUID ex_domain" "at ex_domain 17 = Some 0"
  "18 + unat (0 :: byte) + 4 \<le> length_u8 ex_domain"
  by (simp_all add: ex_domain_facts)

lemma ex_domain_fetch:
  "fetch_decoded never_throws latin1_decode ex_domain = Upgrade (makeResponse 101 None) ex_session"
proof -
  have "bytes_of (subarray ex_domain 26 (length_u8 ex_domain)) = [9, 9]"
    using bytes_of_subarray_rest[of 26 ex_domain] by (simp add: ex_domain_facts)
  then have "uplink_start ex_domain \<lparr>host = str ''abc'', end_offset = Num 26, ok = True\<rparr>
          \<lparr>closed = False, isFirst = True,
           calls = [(Connect (str ''abc'') 443, False), (Opened (str ''abc'') 443, False)]\<rparr> = ex_session"
    by (simp add: uplink_start_def ex_session_def ex_domain_facts)
  then show ?thesis
    unfolding fetch_decoded_header_ok[OF ex_domain_header]
    using ex_domain_parse ex_domain_port ex_domain_connect by simp
qed

lemma ex_domain_fetch_no_network:
  "fetch_decoded no_network latin1_decode ex_domain =
     Reject DestinationUnreachable (makeResponse 502 None)
       [(Connect (str ''abc'') 443, True), (Connect PROXY_HOST PROXY_PORT, True)]"
  unfolding fetch_decoded_header_ok[OF ex_domain_header]
  using ex_domain_parse ex_domain_port ex_domain_unreachable by simp

section \<open>The connection establisher\<close>

text \<open>
  C6. \<open>connectTCP\<close> adds to the log one of three things and nothing else: a successful
  attempt to the requested endpoint (which it returns); a failed attempt to it (\<open>connect\<close>
  threw, or the socket did not become ready) followed by a successful attempt to the
  configured fallback endpoint (which it returns); or a failed attempt to each of the two,
  in that order, and then it throws. So the requested endpoint is tried exactly once, the
  fallback exactly once and only after a failure, and nothing a third time. When both
  attempts fail inside \<open>fetch\<close>, the reply is \<open>DestinationUnreachable\<close> with status 502,
  and every such reply has exactly those two \<open>connect\<close> calls in its log. No handler of
  an open session connects again: in every run the log shows at most two \<open>connect\<close> calls.
\<close>

theorem single_attempt_plus_one_fallback:
  "(\<exists>new. snd (connectTCP throws hostname port l) = l @ new \<and>
      (fst (connectTCP throws hostname port l) = Inr (hostname, port) \<and>
         new = attempt_ok hostname port \<or>
       (\<exists>d\<in>attempt_failed hostname port.
          fst (connectTCP throws hostname port l) = Inr (PROXY_HOST, PROXY_PORT) \<and>
          new = d @ attempt_ok PROXY_HOST PROXY_PORT) \<or>
       (\<exists>d\<in>attempt_failed hostname port. \<exists>f\<in>attempt_failed PROXY_HOST PROXY_PORT.
          fst (connectTCP throws hostname port l) = Inl Thrown \<and> new = d @ f))) \<and>
   (\<forall>optLen addr l'.
      18 \<le> length_u8 data \<and> verifyUUID data \<and> at data 17 = Some optLen \<and>
      18 + unat optLen + 4 \<le> length_u8 data \<and>
      parseAddress decode data (18 + unat optLen) = Inr addr \<and> ok addr \<and>
      connectTCP throws (host addr)
        (or (push_bit 8 (to_int32 (at data (19 + unat optLen))))
            (to_int32 (at data (20 + unat optLen)))) [] = (Inl Thrown, l') \<longrightarrow>
      fetch_decoded throws decode data = Reject DestinationUnreachable (makeResponse 502 None) l') \<and>
   (\<forall>resp l'. fetch_decoded throws decode data = Reject DestinationUnreachable resp l' \<longrightarrow>
      status resp = 502 \<and>
      (\<exists>h p. \<exists>d\<in>attempt_failed h p. \<exists>f\<in>attempt_failed PROXY_HOST PROXY_PORT. l' = d @ f) \<and>
      (\<exists>h p. connects l' = [(h, p), (PROXY_HOST, PROXY_PORT)])) \<and>
   (\<forall>resp s evs. fetch_decoded throws decode data = Upgrade resp s \<longrightarrow>
      length (connects (calls (run throws encode evs s))) \<le> 2)"
proof (intro conjI allI impI)
  show "\<exists>new. snd (connectTCP throws hostname port l) = l @ new \<and>
      (fst (connectTCP throws hostname port l) = Inr (hostname, port) \<and>
         new = attempt_ok hostname port \<or>
       (\<exists>d\<in>attempt_failed hostname port.
          fst (connectTCP throws hostname port l) = Inr (PROXY_HOST, PROXY_PORT) \<and>
          new = d @ attempt_ok PROXY_HOST PROXY_PORT) \<or>
       (\<exists>d\<in>attempt_failed hostname port. \<exists>f\<in>attempt_failed PROXY_HOST PROXY_PORT.
          fst (connectTCP throws hostname port l) = Inl Thrown \<and> new = d @ f))"
    by (rule connectTCP_outcomes)
next
  fix optLen addr l'
  assume "18 \<le> length_u8 data \<and> verifyUUID data \<and> at data 17 = Some optLen \<and>
      18 + unat optLen + 4 \<le> length_u8 data \<and>
      parseAddress decode data (18 + unat optLen) = Inr addr \<and> ok addr \<and>
      connectTCP throws (host addr)
        (or (push_bit 8 (to_int32 (at data (19 + unat optLen))))
            (to_int32 (at data (20 + unat optLen)))) [] = (Inl Thrown, l')"
  then show "fetch_decoded throws decode data =
      Reject DestinationUnreachable (makeResponse 502 None) l'"
    by (simp add: fetch_decoded_header_ok)
next
  fix resp l'
  assume rej: "fetch_decoded throws decode data = Reject DestinationUnreachable resp l'"
  have "status resp = 502 \<and>
      (\<exists>h p. \<exists>d\<in>attempt_failed h p. \<exists>f\<in>attempt_failed PROXY_HOST PROXY_PORT. l' = d @ f) \<and>
      (\<exists>h p. connects l' = [(h, p), (PROXY_HOST, PROXY_PORT)])"
  proof (cases rule: fetch_decoded_cases[of throws decode data])
    case (unreachable optLen addr l)
    let ?p = "or (push_bit 8 (to_int32 (at data (19 + unat optLen))))
                 (to_int32 (at data (20 + unat optLen)))"
    from unreachable(8) rej have resp: "resp = makeResponse 502 None" and l: "l' = l"
      by simp_all
    from connectTCP_outcomes[of throws "host addr" ?p "[]"] unreachable(7)
    obtain d f where df: "d \<in> attempt_failed (host addr) ?p"
      "f \<in> attempt_failed PROXY_HOST PROXY_PORT" "l = d @ f"
      by auto
    then have "connects l = [(host addr, ?p), (PROXY_HOST, PROXY_PORT)]"
      by (simp add: connects_append attempt_failed_observed)
    with df resp l show ?thesis
      by (auto simp: status_makeResponse)
  qed (use rej in simp_all)
  then show "status resp = 502"
    and "\<exists>h p. \<exists>d\<in>attempt_failed h p. \<exists>f\<in>attempt_failed PROXY_HOST PROXY_PORT. l' = d @ f"
    and "\<exists>h p. connects l' = [(h, p), (PROXY_HOST, PROXY_PORT)]"
    by simp_all
next
  fix resp s evs
  assume up: "fetch_decoded throws decode data = Upgrade resp s"
  show "length (connects (calls (run throws encode evs s))) \<le> 2"
  proof (cases rule: fetch_decoded_cases[of throws decode data])
    case (upgraded optLen addr tcp l)
    from upgraded(8) up have
      "s = uplink_start data addr \<lparr>closed = False, isFirst = True, calls = l\<rparr>"
      by simp
    then have "connects (calls (run throws encode evs s)) = connects l"
      by (simp add: run_connects uplink_start_observed)
    with connectTCP_observed(1)[OF upgraded(7)] show ?thesis
      by auto
  qed (use up in simp_all)
qed

theorem single_attempt_plus_one_fallback_witness:
  "[(Connect (str ''abc'') 443, True)] \<in> attempt_failed (str ''abc'') 443 \<and>
   [(Connect PROXY_HOST PROXY_PORT, True)] \<in> attempt_failed PROXY_HOST PROXY_PORT \<and>
   fetch_decoded no_network latin1_decode ex_domain =
     Reject DestinationUnreachable (makeResponse 502 None)
       [(Connect (str ''abc'') 443, True), (Connect PROXY_HOST PROXY_PORT, True)] \<and>
   status (makeResponse 502 None) = 502 \<and>
   (\<exists>h p. connects [(Connect (str ''abc'') 443, True), (Connect PROXY_HOST PROXY_PORT, True)] =
      [(h, p), (PROXY_HOST, PROXY_PORT)]) \<and>
   fetch_decoded never_throws latin1_decode ex_domain = Upgrade (makeResponse 101 None) ex_session \<and>
   length (connects (calls (run never_throws latin1_encode ex_run ex_session))) \<le> 2"
proof -
  have mem: "[(Connect (str ''abc'') 443, True)] \<in> attempt_failed (str ''abc'') 443"
    "[(Connect PROXY_HOST PROXY_PORT, True)] \<in> attempt_failed PROXY_HOST PROXY_PORT"
    by (simp_all add: attempt_failed_def)
  from single_attempt_plus_one_fallback
    [where throws = no_network and data = ex_domain and decode = latin1_decode]
    ex_domain_fetch_no_network
  have "status (makeResponse 502 None) = 502 \<and>
    (\<exists>h p. connects [(Connect (str ''abc'') 443, True), (Connect PROXY_HOST PROXY_PORT, True)] =
      [(h, p), (PROXY_HOST, PROXY_PORT)])"
    by blast
  moreover
  from single_attempt_plus_one_fallback
    [where throws = never_throws and data = ex_domain and decode = latin1_decode
       and encode = latin1_encode]
    ex_domain_fetch
  have "length (connects (calls (run never_throws latin1_encode ex_run ex_session))) \<le> 2"
    by blast
  ultimately show ?thesis
    using mem ex_domain_fetch ex_domain_fetch_no_network by blast
qed

section \<open>The relay engine\<close>

text \<open>
  C7. In every run of a session that \<open>fetch\<close> opened, whatever the runtime throws, the
  frames handed to \<open>server.send\<close> are, in order: the first chunk received from the
  destination with the two bytes 0, 0 in front, then every later chunk as it was received.
  No chunk but the first gets a header, and when the destination sends nothing, nothing is
  sent.
\<close>

theorem downlink_header_once:
  assumes "fetch_decoded throws decode data = Upgrade resp s"
  shows "sent_frames (calls (run throws encode evs s)) = framed (chunks evs)"
proof (cases rule: fetch_decoded_cases[of throws decode data])
  case (upgraded optLen addr tcp l)
  from upgraded(8) assms have
    s: "s = uplink_start data addr \<lparr>closed = False, isFirst = True, calls = l\<rparr>"
    by simp
  have "isFirst s" and "sent_frames (calls s) = []"
    using connectTCP_observed(2)[OF upgraded(7)] by (simp_all add: s uplink_start_observed)
  then show ?thesis
    by (simp add: run_sent_frames)
qed (use assms in simp_all)

theorem downlink_header_once_witness:
  "fetch_decoded never_throws latin1_decode ex_domain = Upgrade (makeResponse 101 None) ex_session \<and>
   chunks ex_run = [[1, 2], [3], [4]] \<and>
   sent_frames (calls (run never_throws latin1_encode ex_run ex_session)) = [[0, 0, 1, 2], [3], [4]]"
proof -
  have c: "chunks ex_run = [[1, 2], [3], [4]]"
    by (simp add: ex_run_def)
  from downlink_header_once[OF ex_domain_fetch, where encode = latin1_encode and evs = ex_run]
  have "sent_frames (calls (run never_throws latin1_encode ex_run ex_session)) = [[0, 0, 1, 2], [3], [4]]"
    by (simp add: c)
  with c ex_domain_fetch show ?thesis
    by blast
qed

text \<open>
  C8. In every run of a session that \<open>fetch\<close> opened for a blob, whatever the runtime
  throws, the chunks handed to the uplink's queue are, in order: first, if the blob is
  longer than the address descriptor's end offset \<open>e\<close>, exactly the blob's bytes from \<open>e\<close>
  on, in one chunk that is accepted; then the bytes of each client message, in the order
  the messages arrived. If the blob ends at \<open>e\<close>, only the messages are queued.
\<close>

theorem uplink_trailing_first:
  assumes "wf_array data"
    and "fetch_decoded throws decode data = Upgrade resp s"
  shows "\<exists>optLen addr e flags.
           at data 17 = Some optLen \<and>
           parseAddress decode data (18 + unat optLen) = Inr addr \<and>
           end_offset addr = Num e \<and> e \<le> length_u8 data \<and>
           length flags = length (messages evs) \<and>
           enqueued (calls (run throws encode evs s)) =
             (if e < length_u8 data then [(drop e (bytes_of data), False)] else []) @
             zip (map (payload_bytes encode) (messages evs)) flags"
proof (cases rule: fetch_decoded_cases[of throws decode data])
  case (upgraded optLen addr tcp l)
  from upgraded(8) assms(2) have
    s: "s = uplink_start data addr \<lparr>closed = False, isFirst = True, calls = l\<rparr>"
    by simp
  from parseAddress_props[OF assms(1), of decode "18 + unat optLen"] upgraded(5,6)
  obtain e where e: "end_offset addr = Num e" "e \<le> length_u8 data"
    by auto
  have start: "enqueued (calls s) =
      (if e < length_u8 data then [(drop e (bytes_of data), False)] else [])"
    using connectTCP_observed(3)[OF upgraded(7)] e
    by (simp add: s uplink_start_def enqueued_append bytes_of_subarray_rest)
  from run_enqueued[of evs throws encode s] obtain flags where
    "length flags = length (messages evs)"
    "enqueued (calls (run throws encode evs s)) =
       enqueued (calls s) @ zip (map (payload_bytes encode) (messages evs)) flags"
    by blast
  with upgraded(3,5) e start show ?thesis
    by auto
qed (use assms(2) in simp_all)

theorem uplink_trailing_first_witness:
  "wf_array ex_domain \<and>
   fetch_decoded never_throws latin1_decode ex_domain = Upgrade (makeResponse 101 None) ex_session \<and>
   parseAddress latin1_decode ex_domain 18 = Inr \<lparr>host = str ''abc'', end_offset = Num 26, ok = True\<rparr> \<and>
   drop 26 (bytes_of ex_domain) = [9, 9] \<and>
   map fst (enqueued (calls (run never_throws latin1_encode ex_run ex_session))) =
     [[9, 9], [7], [0x68, 0x69], [8]]"
proof -
  from uplink_trailing_first
    [OF ex_domain_facts(1) ex_domain_fetch, where encode = latin1_encode and evs = ex_run]
  obtain optLen addr e flags where
    w: "at ex_domain 17 = Some optLen"
      "parseAddress latin1_decode ex_domain (18 + unat optLen) = Inr addr"
      "end_offset addr = Num e"
      "length flags = length (messages ex_run)"
      "enqueued (calls (run never_throws latin1_encode ex_run ex_session)) =
         (if e < length_u8 ex_domain then [(drop e (bytes_of ex_domain), False)] else []) @
         zip (map (payload_bytes latin1_encode) (messages ex_run)) flags"
    by blast
  from w(1) have "optLen = 0"
    by (simp add: ex_domain_facts)
  with w(2) have "addr = \<lparr>host = str ''abc'', end_offset = Num 26, ok = True\<rparr>"
    by (simp add: ex_domain_parse)
  with w(3) have e: "e = 26"
    by simp
  have m: "map (payload_bytes latin1_encode) (messages ex_run) = [[7], [0x68, 0x69], [8]]"
    by (simp add: ex_run_def payload_bytes_def latin1_encode_def str_def chr_def)
  from w(4) m have "map fst (zip (map (payload_bytes latin1_encode) (messages ex_run)) flags) =
      [[7], [0x68, 0x69], [8]]"
    by (metis length_map map_fst_zip)
  with w(5) e have
    "map fst (enqueued (calls (run never_throws latin1_encode ex_run ex_session))) =
       [[9, 9], [7], [0x68, 0x69], [8]]"
    by (simp add: ex_domain_facts)
  then show ?thesis
    using ex_domain_facts(1,10) ex_domain_fetch ex_domain_parse by blast
qed

text \<open>
  C9. \<open>shutdown\<close> never throws. On a session that is not closed it sets the flag and calls
  \<open>server.close()\<close> and then \<open>tcp.close()\<close>, the second also when the first threw, and
  changes nothing else. On a session that is closed it makes no call and returns the
  session as it is; so a second \<open>shutdown\<close> after a first, from any call site, changes
  nothing. In every run of a session that \<open>fetch\<close> opened, the log shows no \<open>close\<close> call
  while the session is not closed, and exactly one on each channel once it is.
\<close>

theorem shutdown_idempotent:
  "shutdown throws s =
     (Inr (),
      if closed s then s
      else s\<lparr>closed := True,
             calls := calls s @
               [(ServerClose, throws (calls s) ServerClose),
                (TcpClose, throws (calls s @ [(ServerClose, throws (calls s) ServerClose)]) TcpClose)]\<rparr>) \<and>
   closed (snd (shutdown throws s)) \<and>
   shutdown throws' (snd (shutdown throws s)) = (Inr (), snd (shutdown throws s)) \<and>
   (\<forall>resp s0 evs. fetch_decoded throws decode data = Upgrade resp s0 \<longrightarrow>
      closes (calls (run throws encode evs s0)) =
        (if closed (run throws encode evs s0) then [ServerClose, TcpClose] else []))"
proof (intro conjI allI impI)
  show "shutdown throws s =
     (Inr (),
      if closed s then s
      else s\<lparr>closed := True,
             calls := calls s @
               [(ServerClose, throws (calls s) ServerClose),
                (TcpClose, throws (calls s @ [(ServerClose, throws (calls s) ServerClose)]) TcpClose)]\<rparr>)"
    by (rule shutdown_eq)
  show c: "closed (snd (shutdown throws s))"
    by (simp add: shutdown_eq)
  show "shutdown throws' (snd (shutdown throws s)) = (Inr (), snd (shutdown throws s))"
    using c by (simp add: shutdown_eq[of throws'])
next
  fix resp s0 evs
  assume up: "fetch_decoded throws decode data = Upgrade resp s0"
  have "closed_once s0"
  proof (cases rule: fetch_decoded_cases[of throws decode data])
    case (upgraded optLen addr tcp l)
    from upgraded(8) up have
      "s0 = uplink_start data addr \<lparr>closed = False, isFirst = True, calls = l\<rparr>"
      by simp
    then show ?thesis
      using connectTCP_observed(4)[OF upgraded(7)]
      by (simp add: closed_once_def uplink_start_def closes_append)
  qed (use up in simp_all)
  then have "closed_once (run throws encode evs s0)"
    by (rule closed_once_run)
  then show "closes (calls (run throws encode evs s0)) =
        (if closed (run throws encode evs s0) then [ServerClose, TcpClose] else [])"
    by (simp add: closed_once_def)
qed

theorem shutdown_idempotent_witness:
  "fetch_decoded never_throws latin1_decode ex_domain = Upgrade (makeResponse 101 None) ex_session \<and>
   closed (run never_throws latin1_encode ex_run ex_session) \<and>
   closes (calls (run never_throws latin1_encode ex_run ex_session)) = [ServerClose, TcpClose]"
proof -
  have c: "closed (run never_throws latin1_encode ex_run ex_session)"
    by (simp add: ex_run_def ex_session_def shutdown_eq on_message_eq downlink_write_eq
        never_throws_def Let_def)
  from shutdown_idempotent
    [where throws = never_throws and decode = latin1_decode and data = ex_domain
       and encode = latin1_encode]
    ex_domain_fetch
  have "closes (calls (run never_throws latin1_encode ex_run ex_session)) =
        (if closed (run never_throws latin1_encode ex_run ex_session) then [ServerClose, TcpClose] else [])"
    by blast
  with c ex_domain_fetch show ?thesis
    by simp
qed

section \<open>The empty domain\<close>

lemma ex_empty_domain_facts:
  "length_u8 ex_empty_domain = 23"
  "verifyUUID ex_empty_domain"
  "at ex_empty_domain 17 = Some 0"
  "at ex_empty_domain 19 = Some 1"
  "at ex_empty_domain 20 = Some 0xBB"
  "at ex_empty_domain 21 = Some ATYPE_DOMAIN"
  "at ex_empty_domain 22 = Some 0"
  by (simp_all add: ex_empty_domain_def fresh_array_def ex_header_def UUID_def verifyUUID_def
      at_def ATYPE_defs)

lemma parseAddress_empty_domain:
  assumes "decode [] = []"
    and "at data (offset + 3) = Some ATYPE_DOMAIN" and "at data (offset + 4) = Some 0"
    and "offset + 5 \<le> length_u8 data"
  shows "parseAddress decode data offset = Inr \<lparr>host = [], end_offset = Num (offset + 5), ok = True\<rparr>"
proof -
  have "bytes_of (subarray data (offset + 5) (offset + 5)) = []"
    using bytes_of_subarray_inside[of "offset + 5" "offset + 5" data] assms(4) by simp
  then show ?thesis
    using assms by (simp add: parseAddress_domain)
qed

lemma connectTCP_first_call:
  "\<exists>r l. connectTCP throws h p [] = (r, l) \<and> l \<noteq> [] \<and> fst (hd l) = Connect h p"
proof -
  obtain r l where c: "connectTCP throws h p [] = (r, l)"
    by (cases "connectTCP throws h p []") blast
  from connectTCP_outcomes[of throws h p "[]"] c
  consider "l = attempt_ok h p"
    | d f where "d \<in> attempt_failed h p" "l = d @ f"
    by auto
  then have "l \<noteq> [] \<and> fst (hd l) = Connect h p"
    by cases (auto simp: attempt_ok_def attempt_failed_def)
  with c show ?thesis
    by blast
qed

text \<open>
  C10. Let the platform's decoder turn no bytes into the empty string. A domain address
  whose length byte is 0, with \<open>offset + 5\<close> within the blob, is valid: its host is the
  empty string and it ends at \<open>offset + 5\<close>. For a blob with an accepted credential whose
  address is such a domain, \<open>fetch\<close> does not reject the handshake as invalid: it calls
  \<open>connectTCP\<close> with the empty host name, whose first platform call is \<open>connect\<close> to the
  empty host name, and the reply is the upgrade, or \<open>DestinationUnreachable\<close> when both
  attempts fail.
\<close>

theorem empty_domain_accepted:
  assumes "decode [] = []"
  shows "(at data (offset + 3) = Some ATYPE_DOMAIN \<and> at data (offset + 4) = Some 0 \<and>
          offset + 5 \<le> length_u8 data \<longrightarrow>
            parseAddress decode data offset =
              Inr \<lparr>host = [], end_offset = Num (offset + 5), ok = True\<rparr>) \<and>
         (18 \<le> length_u8 data \<and> verifyUUID data \<and> at data 17 = Some optLen \<and>
          at data (18 + unat optLen + 3) = Some ATYPE_DOMAIN \<and>
          at data (18 + unat optLen + 4) = Some 0 \<and>
          18 + unat optLen + 5 \<le> length_u8 data \<longrightarrow>
            (\<exists>r l. connectTCP throws []
                      (or (push_bit 8 (to_int32 (at data (19 + unat optLen))))
                          (to_int32 (at data (20 + unat optLen)))) [] = (r, l) \<and>
                    l \<noteq> [] \<and>
                    fst (hd l) = Connect []
                      (or (push_bit 8 (to_int32 (at data (19 + unat optLen))))
                          (to_int32 (at data (20 + unat optLen)))) \<and>
                    (fetch_decoded throws decode data =
                       Reject DestinationUnreachable (makeResponse 502 None) l \<or>
                     (\<exists>s rest. fetch_decoded throws decode data = Upgrade (makeResponse 101 None) s \<and>
                        calls s = l @ rest))))"
proof (intro conjI impI)
  assume "at data (offset + 3) = Some ATYPE_DOMAIN \<and> at data (offset + 4) = Some 0 \<and>
          offset + 5 \<le> length_u8 data"
  then show "parseAddress decode data offset =
      Inr \<lparr>host = [], end_offset = Num (offset + 5), ok = True\<rparr>"
    using parseAddress_empty_domain[where decode = decode, OF assms] by blast
next
  let ?port = "or (push_bit 8 (to_int32 (at data (19 + unat optLen))))
                  (to_int32 (at data (20 + unat optLen)))"
  assume a: "18 \<le> length_u8 data \<and> verifyUUID data \<and> at data 17 = Some optLen \<and>
          at data (18 + unat optLen + 3) = Some ATYPE_DOMAIN \<and>
          at data (18 + unat optLen + 4) = Some 0 \<and>
          18 + unat optLen + 5 \<le> length_u8 data"
  then have parse: "parseAddress decode data (18 + unat optLen) =
      Inr \<lparr>host = [], end_offset = Num (18 + unat optLen + 5), ok = True\<rparr>"
    using parseAddress_empty_domain
      [where decode = decode and data = data and offset = "18 + unat optLen", OF assms]
    by blast
  from a have fits: "18 + unat optLen + 4 \<le> length_u8 data"
    by simp
  from connectTCP_first_call[of throws "[]" ?port] obtain r l where
    c: "connectTCP throws [] ?port [] = (r, l)" "l \<noteq> []" "fst (hd l) = Connect [] ?port"
    by blast
  have "fetch_decoded throws decode data = Reject DestinationUnreachable (makeResponse 502 None) l \<or>
        (\<exists>s rest. fetch_decoded throws decode data = Upgrade (makeResponse 101 None) s \<and>
           calls s = l @ rest)"
  proof (cases r)
    case (Inl e)
    with a fits parse c(1) show ?thesis
      by (simp add: fetch_decoded_header_ok)
  next
    case (Inr tcp)
    with a fits parse c(1) have
      "fetch_decoded throws decode data =
         Upgrade (makeResponse 101 None)
           (uplink_start data \<lparr>host = [], end_offset = Num (18 + unat optLen + 5), ok = True\<rparr>
              \<lparr>closed = False, isFirst = True, calls = l\<rparr>)"
      by (simp add: fetch_decoded_header_ok)
    moreover have "\<exists>rest. calls (uplink_start data
           \<lparr>host = [], end_offset = Num (18 + unat optLen + 5), ok = True\<rparr>
           \<lparr>closed = False, isFirst = True, calls = l\<rparr>) = l @ rest"
      by (simp add: uplink_start_def)
    ultimately show ?thesis
      by blast
  qed
  with c show "\<exists>r l. connectTCP throws [] ?port [] = (r, l) \<and> l \<noteq> [] \<and>
      fst (hd l) = Connect [] ?port \<and>
      (fetch_decoded throws decode data = Reject DestinationUnreachable (makeResponse 502 None) l \<or>
       (\<exists>s rest. fetch_decoded throws decode data = Upgrade (makeResponse 101 None) s \<and>
          calls s = l @ rest))"
    by blast
qed

theorem empty_domain_accepted_witness:
  "latin1_decode [] = [] \<and>
   at ex_empty_domain (18 + 3) = Some ATYPE_DOMAIN \<and> at ex_empty_domain (18 + 4) = Some 0 \<and>
   18 + 5 \<le> length_u8 ex_empty_domain \<and>
   18 \<le> length_u8 ex_empty_domain \<and> verifyUUID ex_empty_domain \<and>
   at ex_empty_domain 17 = Some 0 \<and>
   parseAddress latin1_decode ex_empty_domain 18 = Inr \<lparr>host = [], end_offset = Num 23, ok = True\<rparr> \<and>
   fetch_decoded never_throws latin1_decode ex_empty_domain =
     Upgrade (makeResponse 101 None) ex_empty_session"
proof -
  have d: "latin1_decode [] = []"
    by (simp add: latin1_decode_def)
  have h: "at ex_empty_domain (18 + 3) = Some ATYPE_DOMAIN \<and> at ex_empty_domain (18 + 4) = Some 0 \<and>
           18 + 5 \<le> length_u8 ex_empty_domain"
    by (simp add: ex_empty_domain_facts)
  have hdr: "18 \<le> length_u8 ex_empty_domain" "verifyUUID ex_empty_domain"
    "at ex_empty_domain 17 = Some 0" "18 + unat (0 :: byte) + 4 \<le> length_u8 ex_empty_domain"
    by (simp_all add: ex_empty_domain_facts)
  from empty_domain_accepted
    [where decode = latin1_decode and data = ex_empty_domain and offset = 18, OF d] h
  have parse: "parseAddress latin1_decode ex_empty_domain 18 =
      Inr \<lparr>host = [], end_offset = Num (18 + 5), ok = True\<rparr>"
    by blast
  have port: "or (push_bit 8 (to_int32 (at ex_empty_domain 19))) (to_int32 (at ex_empty_domain 20)) = (443 :: nat)"
    by (simp add: ex_empty_domain_facts to_int32_def)
  have conn: "connectTCP never_throws [] 443 [] =
     (Inr ([], 443), [(Connect [] 443, False), (Opened [] 443, False)])"
    by (simp add: attempt_eq connectTCP_def try_catch_def never_throws_def attempt_ok_def)
  have start: "uplink_start ex_empty_domain \<lparr>host = [], end_offset = Num 23, ok = True\<rparr>
          \<lparr>closed = False, isFirst = True,
           calls = [(Connect [] 443, False), (Opened [] 443, False)]\<rparr> = ex_empty_session"
    by (simp add: uplink_start_def ex_empty_session_def ex_empty_domain_facts)
  have "fetch_decoded never_throws latin1_decode ex_empty_domain =
     Upgrade (makeResponse 101 None) ex_empty_session"
    unfolding fetch_decoded_header_ok[OF hdr]
    using parse port conn start by simp
  with d h hdr parse show ?thesis
    by simp
qed

end
